theory Spec2Isabelle
  imports Main
begin

section \<open>JavaScript values, errors and strings\<close>

text \<open>
  The loader exists in two variants: the single-element class of
  \<^verbatim>\<open>src/unnamed/part_000\<close> and the selector-based class appended to
  \<^verbatim>\<open>src/webpack.config.js\<close>. Definitions that belong to the second variant
  only carry the suffix \<open>_wp\<close>; the four sanitizing steps are textually the same
  in both files (one works on the field \<^verbatim>\<open>this.inlineSvg\<close>, the other on a
  parameter) and are embedded once.

  Strings are lists of 8-bit characters, read as code units below 256. Values
  that the code reads from \<^verbatim>\<open>dataset\<close> are strings when the attribute is
  present and \<^verbatim>\<open>undefined\<close> when it is absent: \<open>string option\<close>.
\<close>

datatype js_error = TypeError | SyntaxError | InvalidCharacterError | NetworkError

datatype jsval = JUndefined | JStr string

text \<open>Conversion to a string, as the DOM bindings do for a string argument.\<close>

fun to_string :: "jsval \<Rightarrow> string" where
  "to_string JUndefined = ''undefined''"
| "to_string (JStr s) = s"

fun from_data :: "string option \<Rightarrow> jsval" where
  "from_data None = JUndefined"
| "from_data (Some s) = JStr s"

text \<open>Truthiness of a dataset value: \<^verbatim>\<open>undefined\<close> and the empty string are falsy.\<close>

fun truthy :: "string option \<Rightarrow> bool" where
  "truthy None = False"
| "truthy (Some s) = (s \<noteq> [])"

text \<open>The character classes \<^verbatim>\<open>\s\<close> and \<^verbatim>\<open>\w\<close> of a regular expression.\<close>

definition is_space :: "char \<Rightarrow> bool" where
  "is_space c = (let n = (of_char c :: nat) in (9 \<le> n \<and> n \<le> 13) \<or> n = 32 \<or> n = 160)"

definition is_word :: "char \<Rightarrow> bool" where
  "is_word c = (let n = (of_char c :: nat) in
     (48 \<le> n \<and> n \<le> 57) \<or> (65 \<le> n \<and> n \<le> 90) \<or> (97 \<le> n \<and> n \<le> 122) \<or> n = 95)"

text \<open>\<^verbatim>\<open>String.prototype.trim\<close>.\<close>

definition trim :: "string \<Rightarrow> string" where
  "trim s = rev (dropWhile is_space (rev (dropWhile is_space s)))"

text \<open>\<^verbatim>\<open>String.prototype.split\<close> with a one-character separator.\<close>

fun split_on :: "char \<Rightarrow> string \<Rightarrow> string list" where
  "split_on sep [] = [] # []"
| "split_on sep (c # cs) =
     (if c = sep then [] # split_on sep cs
      else (case split_on sep cs of [] \<Rightarrow> [c] # [] | p # ps \<Rightarrow> (c # p) # ps))"

text \<open>Decimal rendering of a number, for \<^verbatim>\<open>setAttribute(size, this.element[size])\<close>.\<close>

function show_nat :: "nat \<Rightarrow> string" where
  "show_nat n =
     (if n < 10 then [char_of (48 + n)] else show_nat (n div 10) @ [char_of (48 + n mod 10)])"
  by pat_completeness auto
termination
  by (relation "measure id") auto

declare show_nat.simps [simp del]

fun show_size :: "nat option \<Rightarrow> string" where
  "show_size None = ''undefined''"
| "show_size (Some n) = show_nat n"

section \<open>The parsed SVG and its attributes\<close>

text \<open>
  An element of the parsed document: tag name, attribute list in document order,
  child elements. \<^verbatim>\<open>null\<close> (no \<^verbatim>\<open>svg\<close> found) is \<open>None\<close>.
\<close>

datatype svg_node = Node (tag: string) (attrs: "(string \<times> string) list") (children: "svg_node list")

text \<open>
  \<^verbatim>\<open>Element.removeAttribute\<close>: the first attribute with that name is removed,
  a missing name is ignored.
\<close>

fun remove_first :: "string \<Rightarrow> (string \<times> string) list \<Rightarrow> (string \<times> string) list" where
  "remove_first n [] = []"
| "remove_first n (kv # as) = (if fst kv = n then as else kv # remove_first n as)"

fun removeAttribute :: "string \<Rightarrow> svg_node \<Rightarrow> svg_node" where
  "removeAttribute n (Node t as cs) = Node t (remove_first n as) cs"

text \<open>
  \<^verbatim>\<open>Element.setAttribute\<close>: the first attribute with that name gets the value,
  otherwise a new attribute is appended. A name the platform rejects raises
  \<^verbatim>\<open>InvalidCharacterError\<close>; which names are rejected is the platform's
  choice and is a parameter.
\<close>

fun set_first :: "string \<Rightarrow> string \<Rightarrow> (string \<times> string) list \<Rightarrow> (string \<times> string) list" where
  "set_first n v [] = [(n, v)]"
| "set_first n v (kv # as) = (if fst kv = n then (n, v) # as else kv # set_first n v as)"

fun set_attr :: "string \<Rightarrow> string \<Rightarrow> svg_node \<Rightarrow> svg_node" where
  "set_attr n v (Node t as cs) = Node t (set_first n v as) cs"

definition setAttribute ::
  "(string \<Rightarrow> bool) \<Rightarrow> string \<Rightarrow> string \<Rightarrow> svg_node \<Rightarrow> svg_node \<times> js_error option" where
  "setAttribute valid n v svg =
     (if valid n then (set_attr n v svg, None) else (svg, Some InvalidCharacterError))"

text \<open>
  \<^verbatim>\<open>forEach\<close> over an array with a body that may throw: the state reached so far
  is kept, the error (if any) ends the loop.
\<close>

fun forEach :: "('a \<Rightarrow> 's \<Rightarrow> 's \<times> js_error option) \<Rightarrow> 'a list \<Rightarrow> 's \<Rightarrow> 's \<times> js_error option" where
  "forEach f [] s = (s, None)"
| "forEach f (x # xs) s =
     (case f x s of (s', None) \<Rightarrow> forEach f xs s' | (s', Some e) \<Rightarrow> (s', Some e))"

section \<open>The placeholder element\<close>

record element =
  data_src :: "string option"
  data_removeAttrs :: "string option"
  data_addAttrs :: "string option"
  data_setSvgSize :: "string option"
  data_removeScripts :: "string option"
  classes :: "string list"
  width :: "nat option"
  height :: "nat option"

section \<open>The sanitizing steps\<close>

text \<open>
  Every step takes the placeholder and the current value of \<^verbatim>\<open>inlineSvg\<close>
  and returns the value after the step together with the error thrown, if any.
  A method call on \<^verbatim>\<open>null\<close> throws \<^verbatim>\<open>TypeError\<close>.
\<close>

definition removeAttrs :: "element \<Rightarrow> svg_node option \<Rightarrow> svg_node option \<times> js_error option" where
  "removeAttrs el svg =
     (case data_removeAttrs el of
        None \<Rightarrow> (svg, None)
      | Some s \<Rightarrow>
          if s = [] then (svg, None)
          else forEach (\<lambda>attr cur.
                 case cur of
                   None \<Rightarrow> (None, Some TypeError)
                 | Some n \<Rightarrow> (Some (removeAttribute (trim attr) n), None))
               (split_on CHR '','' s) svg)"

text \<open>
  \<^verbatim>\<open>querySelectorAll('script')\<close> followed by \<^verbatim>\<open>remove()\<close> on every hit:
  each descendant with tag \<^verbatim>\<open>script\<close> leaves its parent.
\<close>

fun remove_script_elements :: "svg_node \<Rightarrow> svg_node" where
  "remove_script_elements (Node t as cs) =
     Node t as (map remove_script_elements (filter (\<lambda>c. tag c \<noteq> ''script'') cs))"

text \<open>\<^verbatim>\<open>attr.match(/^on\w*/i)\<close>: the name starts with o or O, then n or N.\<close>

fun attrsStartedFromOn :: "string \<Rightarrow> bool" where
  "attrsStartedFromOn (a # b # _) =
     ((a = CHR ''o'' \<or> a = CHR ''O'') \<and> (b = CHR ''n'' \<or> b = CHR ''N''))"
| "attrsStartedFromOn _ = False"

definition getAttributeNames :: "svg_node \<Rightarrow> string list" where
  "getAttributeNames svg = map fst (attrs svg)"

definition removeScripts :: "element \<Rightarrow> svg_node option \<Rightarrow> svg_node option \<times> js_error option" where
  "removeScripts el svg =
     (if truthy (data_removeScripts el) then
        (case svg of
           None \<Rightarrow> (None, Some TypeError)
         | Some n \<Rightarrow>
             let svgAttrs = getAttributeNames n;
                 n1 = remove_script_elements n
             in (Some (fold (\<lambda>attr cur.
                          if attrsStartedFromOn attr then removeAttribute attr cur else cur)
                        svgAttrs n1), None))
      else (svg, None))"

definition setSvgSize :: "element \<Rightarrow> svg_node option \<Rightarrow> svg_node option \<times> js_error option" where
  "setSvgSize el svg =
     (if truthy (data_setSvgSize el) then
        (case svg of
           None \<Rightarrow> (None, Some TypeError)
         | Some n \<Rightarrow>
             (Some (set_attr ''height'' (show_size (height el))
                     (set_attr ''width'' (show_size (width el)) n)), None))
      else (svg, None))"

section \<open>Adding attributes\<close>

text \<open>
  The character class \<^verbatim>\<open>[\w\d\-\s*]\<close> of the pattern
  \<^verbatim>\<open>/([\w\d\-\s*]+):\s*[\w\d\-\s*]+/g\<close>.
\<close>

definition attr_char :: "char \<Rightarrow> bool" where
  "attr_char c = (is_word c \<or> c = CHR ''-'' \<or> is_space c \<or> c = CHR ''*'')"

text \<open>
  All matches of the pattern, left to right, as \<^verbatim>\<open>String.prototype.match\<close>
  collects them for a global pattern. Neither class contains the colon and
  white space belongs to the class, so a match at a position is the longest run
  of class characters there, a colon, and the longest non-empty run of class
  characters after it; the search goes on behind the match.
\<close>

function match_from :: "string \<Rightarrow> string list" where
  "match_from s =
     (if s = [] then []
      else if takeWhile attr_char s = [] then match_from (tl s)
      else (case dropWhile attr_char s of
              [] \<Rightarrow> []
            | c # after \<Rightarrow>
                if c = CHR '':'' \<and> takeWhile attr_char after \<noteq> []
                then (takeWhile attr_char s @ CHR '':'' # takeWhile attr_char after)
                       # match_from (dropWhile attr_char after)
                else match_from (c # after)))"
  by pat_completeness auto
termination
proof (relation "measure length", goal_cases)
  case 1
  show ?case by simp
next
  case (2 s)
  then show ?case by (cases s) auto
next
  case (3 s c after)
  have "length (dropWhile attr_char after) \<le> length after"
    by (rule length_dropWhile_le)
  moreover have "length (dropWhile attr_char s) \<le> length s"
    by (rule length_dropWhile_le)
  ultimately show ?case using 3 by simp
next
  case (4 s c after)
  have "length (takeWhile attr_char s) + length (dropWhile attr_char s) = length s"
    by (metis length_append takeWhile_dropWhile_id)
  moreover obtain x xs where "takeWhile attr_char s = x # xs"
    using 4 by (cases "takeWhile attr_char s") auto
  ultimately show ?case using 4 by simp
qed

declare match_from.simps [simp del]

text \<open>\<^verbatim>\<open>match\<close> returns \<^verbatim>\<open>null\<close> when the pattern matches nowhere.\<close>

definition js_match :: "string \<Rightarrow> string list option" where
  "js_match s = (case match_from s of [] \<Rightarrow> None | m # ms \<Rightarrow> Some (m # ms))"

definition addAttrs ::
  "(string \<Rightarrow> bool) \<Rightarrow> element \<Rightarrow> svg_node option \<Rightarrow> svg_node option \<times> js_error option" where
  "addAttrs valid el svg =
     (case data_addAttrs el of
        None \<Rightarrow> (svg, None)
      | Some s \<Rightarrow>
          if s = [] then (svg, None)
          else (case js_match s of
                  None \<Rightarrow> (svg, Some TypeError)
                | Some attrsArray \<Rightarrow>
                    forEach (\<lambda>attr cur.
                      case split_on CHR '':'' attr of
                        attrName # attrValue # _ \<Rightarrow>
                          (case cur of
                             None \<Rightarrow> (None, Some TypeError)
                           | Some n \<Rightarrow>
                               (case setAttribute valid (trim attrName) (trim attrValue) n of
                                  (n', e) \<Rightarrow> (Some n', e)))
                      | _ \<Rightarrow> (cur, Some TypeError))
                    attrsArray svg))"

section \<open>The platform, the page and the effects\<close>

text \<open>
  What the browser supplies: the first \<^verbatim>\<open>svg\<close> element of the document that
  \<^verbatim>\<open>DOMParser\<close> builds from a text (\<open>None\<close> when there is none), and the test
  \<^verbatim>\<open>setAttribute\<close> applies to an attribute name.
\<close>

record platform =
  query_svg :: "string \<Rightarrow> svg_node option"
  valid_name :: "string \<Rightarrow> bool"

record options =
  loadingClass :: jsval

text \<open>
  The children of the placeholder's parent node. The placeholder has a parent
  exactly when \<open>Placeholder\<close> occurs in the list.
\<close>

datatype child = Placeholder | Inline svg_node | Other nat

text \<open>The calls that reach outside the loader, recorded in the order they are made.\<close>

datatype event =
    ClassListAdd jsval
  | FetchCall jsval
  | ResponseText
  | ParseCall string
  | ReplaceChild
  | ConsoleError js_error
  | ClassListRemove jsval

text \<open>
  One placeholder and what surrounds it. The field \<open>inlineSvg\<close> is
  \<^verbatim>\<open>this.inlineSvg\<close> of part\_000; webpack.config.js keeps the node in a local
  variable and never writes the field.
\<close>

record world =
  elem :: element
  parent_children :: "child list"
  inlineSvg :: "svg_node option"
  trace :: "event list"

definition log_event :: "event \<Rightarrow> world \<Rightarrow> world" where
  "log_event ev w = w\<lparr>trace := trace w @ [ev]\<rparr>"

text \<open>
  \<^verbatim>\<open>DOMTokenList.add\<close> and \<^verbatim>\<open>remove\<close>: an empty token raises
  \<^verbatim>\<open>SyntaxError\<close>, a token with ASCII white space raises
  \<^verbatim>\<open>InvalidCharacterError\<close>.
\<close>

definition ascii_whitespace :: "char \<Rightarrow> bool" where
  "ascii_whitespace c = (let n = (of_char c :: nat) in n = 9 \<or> n = 10 \<or> n = 12 \<or> n = 13 \<or> n = 32)"

definition token_error :: "string \<Rightarrow> js_error option" where
  "token_error t =
     (if t = [] then Some SyntaxError
      else if list_ex ascii_whitespace t then Some InvalidCharacterError
      else None)"

definition classList_add :: "jsval \<Rightarrow> element \<Rightarrow> element \<times> js_error option" where
  "classList_add v el =
     (case token_error (to_string v) of
        Some e \<Rightarrow> (el, Some e)
      | None \<Rightarrow>
          (if List.member (classes el) (to_string v) then el
           else el\<lparr>classes := classes el @ [to_string v]\<rparr>, None))"

definition classList_remove :: "jsval \<Rightarrow> element \<Rightarrow> element \<times> js_error option" where
  "classList_remove v el =
     (case token_error (to_string v) of
        Some e \<Rightarrow> (el, Some e)
      | None \<Rightarrow> (el\<lparr>classes := removeAll (to_string v) (classes el)\<rparr>, None))"

text \<open>\<^verbatim>\<open>parentNode.replaceChild(inlineSvg, element)\<close> on the list of children.\<close>

fun replaceChild :: "svg_node \<Rightarrow> child list \<Rightarrow> child list" where
  "replaceChild n [] = []"
| "replaceChild n (c # cs) = (if c = Placeholder then Inline n # cs else c # replaceChild n cs)"

definition has_parent :: "world \<Rightarrow> bool" where
  "has_parent w = List.member (parent_children w) Placeholder"

definition parseSvgStringToHtml :: "platform \<Rightarrow> string \<Rightarrow> svg_node option" where
  "parseSvgStringToHtml pf svgString = query_svg pf svgString"

text \<open>Sequencing of two statements, the second skipped when the first throws.\<close>

definition and_then ::
  "'s \<times> js_error option \<Rightarrow> ('s \<Rightarrow> 's \<times> js_error option) \<Rightarrow> 's \<times> js_error option" where
  "and_then r f = (case r of (s, None) \<Rightarrow> f s | (s, Some e) \<Rightarrow> (s, Some e))"

text \<open>The four calls at the head of \<^verbatim>\<open>replaceImgWithSvg\<close>, in the order of the source.\<close>

definition sanitize :: "platform \<Rightarrow> element \<Rightarrow> svg_node option \<Rightarrow> svg_node option \<times> js_error option" where
  "sanitize pf el svg =
     and_then (and_then (and_then (removeAttrs el svg) (removeScripts el))
       (addAttrs (valid_name pf) el)) (setSvgSize el)"

text \<open>
  The swap at the end of \<^verbatim>\<open>replaceImgWithSvg\<close>. \<^verbatim>\<open>replaceChild\<close> with
  \<^verbatim>\<open>null\<close> as the new node throws \<^verbatim>\<open>TypeError\<close>.
\<close>

definition swap :: "svg_node option \<Rightarrow> world \<Rightarrow> world \<times> js_error option" where
  "swap svg w =
     (if has_parent w then
        (case svg of
           None \<Rightarrow> (w, Some TypeError)
         | Some n \<Rightarrow>
             (log_event ReplaceChild (w\<lparr>parent_children := replaceChild n (parent_children w)\<rparr>), None))
      else (w, None))"

text \<open>\<^verbatim>\<open>replaceImgWithSvg\<close> of part\_000, on the field \<^verbatim>\<open>this.inlineSvg\<close>.\<close>

definition replaceImgWithSvg :: "platform \<Rightarrow> world \<Rightarrow> world \<times> js_error option" where
  "replaceImgWithSvg pf w =
     (case sanitize pf (elem w) (inlineSvg w) of
        (svg, Some e) \<Rightarrow> (w\<lparr>inlineSvg := svg\<rparr>, Some e)
      | (svg, None) \<Rightarrow> swap svg (w\<lparr>inlineSvg := svg\<rparr>))"

text \<open>\<^verbatim>\<open>replaceImgWithSvg\<close> of webpack.config.js, which parses the text itself.\<close>

definition replaceImgWithSvg_wp :: "platform \<Rightarrow> string \<Rightarrow> world \<Rightarrow> world \<times> js_error option" where
  "replaceImgWithSvg_wp pf svgString w =
     (case sanitize pf (elem w) (parseSvgStringToHtml pf svgString) of
        (svg, Some e) \<Rightarrow> (log_event (ParseCall svgString) w, Some e)
      | (svg, None) \<Rightarrow> swap svg (log_event (ParseCall svgString) w))"

section \<open>Fetching\<close>

text \<open>
  What the network does with the one request: the promise of \<^verbatim>\<open>fetch\<close>
  rejects, or it resolves to a response with its \<^verbatim>\<open>ok\<close> flag and a body whose
  \<^verbatim>\<open>text()\<close> resolves or rejects.
\<close>

datatype body = Text string | TextFails js_error

datatype fetch_outcome = Rejects js_error | Responds bool body

definition console_error :: "js_error \<Rightarrow> world \<Rightarrow> world" where
  "console_error e w = log_event (ConsoleError e) w"

text \<open>
  \<^verbatim>\<open>getSvg\<close> up to its first \<^verbatim>\<open>await\<close>: the part that runs inside the caller.
  An error here is outside the \<^verbatim>\<open>try\<close> and rejects the promise of \<^verbatim>\<open>getSvg\<close>.
\<close>

definition getSvg_start :: "options \<Rightarrow> world \<Rightarrow> world \<times> js_error option" where
  "getSvg_start opts w =
     (let src = from_data (data_src (elem w));
          lc = loadingClass opts;
          w0 = log_event (ClassListAdd lc) w
      in case classList_add lc (elem w0) of
           (el1, Some e) \<Rightarrow> (w0, Some e)
         | (el1, None) \<Rightarrow> (log_event (FetchCall src) (w0\<lparr>elem := el1\<rparr>), None))"

text \<open>The body of the \<^verbatim>\<open>try\<close> after the request has settled, with its \<^verbatim>\<open>catch\<close>.\<close>

definition getSvg_try :: "platform \<Rightarrow> fetch_outcome \<Rightarrow> world \<Rightarrow> world" where
  "getSvg_try pf outcome w =
     (case outcome of
        Rejects e \<Rightarrow> console_error e w
      | Responds ok b \<Rightarrow>
          if ok then
            (case b of
               TextFails e \<Rightarrow> console_error e (log_event ResponseText w)
             | Text resultSvg \<Rightarrow>
                 (case replaceImgWithSvg pf
                         ((log_event (ParseCall resultSvg) (log_event ResponseText w))
                            \<lparr>inlineSvg := parseSvgStringToHtml pf resultSvg\<rparr>) of
                    (w', None) \<Rightarrow> w'
                  | (w', Some e) \<Rightarrow> console_error e w'))
          else w)"

definition getSvg_try_wp :: "platform \<Rightarrow> fetch_outcome \<Rightarrow> world \<Rightarrow> world" where
  "getSvg_try_wp pf outcome w =
     (case outcome of
        Rejects e \<Rightarrow> console_error e w
      | Responds ok b \<Rightarrow>
          if ok then
            (case b of
               TextFails e \<Rightarrow> console_error e (log_event ResponseText w)
             | Text resultSvg \<Rightarrow>
                 (case replaceImgWithSvg_wp pf resultSvg (log_event ResponseText w) of
                    (w', None) \<Rightarrow> w'
                  | (w', Some e) \<Rightarrow> console_error e w'))
          else w)"

text \<open>The \<^verbatim>\<open>finally\<close> block of part\_000.\<close>

definition getSvg_finally :: "options \<Rightarrow> world \<Rightarrow> world \<times> js_error option" where
  "getSvg_finally opts w =
     (let lc = loadingClass opts;
          w1 = log_event (ClassListRemove lc) w
      in case classList_remove lc (elem w1) of
           (el1, Some e) \<Rightarrow> (w1, Some e)
         | (el1, None) \<Rightarrow> (w1\<lparr>elem := el1\<rparr>, None))"

text \<open>
  \<^verbatim>\<open>getSvg\<close> of part\_000, run to completion with nothing else touching the
  placeholder in between. The second component is the error the returned
  promise rejects with.
\<close>

definition getSvg :: "platform \<Rightarrow> options \<Rightarrow> fetch_outcome \<Rightarrow> world \<Rightarrow> world \<times> js_error option" where
  "getSvg pf opts outcome w =
     (case getSvg_start opts w of
        (w1, Some e) \<Rightarrow> (w1, Some e)
      | (w1, None) \<Rightarrow> getSvg_finally opts (getSvg_try pf outcome w1))"

text \<open>\<^verbatim>\<open>getSvg\<close> of webpack.config.js: the same without a \<^verbatim>\<open>finally\<close> block.\<close>

definition getSvg_wp :: "platform \<Rightarrow> options \<Rightarrow> fetch_outcome \<Rightarrow> world \<Rightarrow> world \<times> js_error option" where
  "getSvg_wp pf opts outcome w =
     (case getSvg_start opts w of
        (w1, Some e) \<Rightarrow> (w1, Some e)
      | (w1, None) \<Rightarrow> (getSvg_try_wp pf outcome w1, None))"

section \<open>Construction\<close>

text \<open>
  The first constructor argument: a class name, or an element of the page
  (elements are numbered). \<open>None\<close> is an omitted argument, for both parameters.
\<close>

datatype element_arg = Selector string | Element nat

definition default_options :: options where
  "default_options = \<lparr>loadingClass = JStr ''js-svg-loading''\<rparr>"

text \<open>
  \<^verbatim>\<open>options || { loadingClass: 'js-svg-loading' }\<close>, for an argument that is
  \<^verbatim>\<open>null\<close> or an object as the documentation of the parameter says.
\<close>

fun options_or_default :: "options option \<Rightarrow> options" where
  "options_or_default None = default_options"
| "options_or_default (Some opts) = opts"

fun element_or_default :: "element_arg option \<Rightarrow> element_arg" where
  "element_or_default None = Selector ''js-lazy-inline-svg''"
| "element_or_default (Some e) = e"

text \<open>An instance of part\_000 that reached \<^verbatim>\<open>init\<close>.\<close>

record loader =
  inst_element :: nat
  inst_options :: options

text \<open>
  The constructor of part\_000 with \<^verbatim>\<open>checkBeforeInit\<close>: for a class name one
  new instance per element found, each built from the element and
  \<^verbatim>\<open>this.options\<close>. The first parameter is \<^verbatim>\<open>document.querySelectorAll\<close>.
\<close>

definition constructor_element :: "nat \<Rightarrow> options option \<Rightarrow> loader list" where
  "constructor_element el opts = [\<lparr>inst_element = el, inst_options = options_or_default opts\<rparr>]"

definition constructor ::
  "(string \<Rightarrow> nat list) \<Rightarrow> element_arg option \<Rightarrow> options option \<Rightarrow> loader list" where
  "constructor querySelectorAll element opts =
     (case element_or_default element of
        Selector s \<Rightarrow>
          concat (map (\<lambda>el. constructor_element el (Some (options_or_default opts)))
                      (querySelectorAll (CHR ''.'' # s)))
      | Element el \<Rightarrow> constructor_element el opts)"

text \<open>The constructor of webpack.config.js with the element list of \<^verbatim>\<open>init\<close>.\<close>

record loader_wp =
  wp_selector :: string
  wp_options :: options
  wp_elements :: "nat list"

definition constructor_wp ::
  "(string \<Rightarrow> nat list) \<Rightarrow> string option \<Rightarrow> options option \<Rightarrow> loader_wp" where
  "constructor_wp querySelectorAll selector opts =
     (let sel = (case selector of None \<Rightarrow> ''js-lazy-inline-svg'' | Some s \<Rightarrow> s)
      in \<lparr>wp_selector = sel, wp_options = options_or_default opts,
          wp_elements = querySelectorAll (CHR ''.'' # sel)\<rparr>)"

section \<open>The visibility watcher\<close>

text \<open>
  One \<^verbatim>\<open>IntersectionObserver\<close> with its observation targets, and the state of
  every element of the page.
\<close>

record entry =
  isIntersecting :: bool
  target :: nat

record observer =
  observed :: "nat list"
  worlds :: "nat \<Rightarrow> world"

definition observe :: "nat \<Rightarrow> observer \<Rightarrow> observer" where
  "observe el st = (if List.member (observed st) el then st else st\<lparr>observed := observed st @ [el]\<rparr>)"

definition unobserve :: "nat \<Rightarrow> observer \<Rightarrow> observer" where
  "unobserve el st = st\<lparr>observed := removeAll el (observed st)\<rparr>"

text \<open>
  The call of \<^verbatim>\<open>getSvg\<close> inside the callback runs up to the first
  \<^verbatim>\<open>await\<close>; the callback does not wait for the promise and does not see its
  rejection.
\<close>

definition call_getSvg :: "options \<Rightarrow> nat \<Rightarrow> observer \<Rightarrow> observer" where
  "call_getSvg opts el st = st\<lparr>worlds := (worlds st)(el := fst (getSvg_start opts (worlds st el)))\<rparr>"

text \<open>The callback of part\_000, which works on \<^verbatim>\<open>this.element\<close>.\<close>

definition callback :: "loader \<Rightarrow> entry list \<Rightarrow> observer \<Rightarrow> observer" where
  "callback self entries st =
     fold (\<lambda>entry st.
            if isIntersecting entry
            then unobserve (inst_element self) (call_getSvg (inst_options self) (inst_element self) st)
            else st)
          entries st"

text \<open>The callback of webpack.config.js, which works on the target of the entry.\<close>

definition callback_wp :: "options \<Rightarrow> entry list \<Rightarrow> observer \<Rightarrow> observer" where
  "callback_wp opts entries st =
     fold (\<lambda>entry st.
            if isIntersecting entry
            then unobserve (target entry) (call_getSvg opts (target entry) st)
            else st)
          entries st"

text \<open>
  \<^verbatim>\<open>addInlineSvgObserver\<close>: a new observer whose only target is the element.
\<close>

definition addInlineSvgObserver :: "loader \<Rightarrow> (nat \<Rightarrow> world) \<Rightarrow> observer" where
  "addInlineSvgObserver self ws = observe (inst_element self) \<lparr>observed = [], worlds = ws\<rparr>"

definition addInlineSvgObserver_wp :: "nat \<Rightarrow> (nat \<Rightarrow> world) \<Rightarrow> observer" where
  "addInlineSvgObserver_wp element ws = observe element \<lparr>observed = [], worlds = ws\<rparr>"

text \<open>
  The browser's side: it queues entries for observation targets only, and hands
  the callback everything queued since the last delivery in one array.
\<close>

definition notify :: "(entry list \<Rightarrow> observer \<Rightarrow> observer) \<Rightarrow> entry list \<Rightarrow> observer \<Rightarrow> observer" where
  "notify cb batch st = cb (filter (\<lambda>x. List.member (observed st) (target x)) batch) st"

definition run :: "(entry list \<Rightarrow> observer \<Rightarrow> observer) \<Rightarrow> entry list list \<Rightarrow> observer \<Rightarrow> observer" where
  "run cb batches st = fold (notify cb) batches st"

fun is_fetch :: "event \<Rightarrow> bool" where
  "is_fetch (FetchCall _) = True"
| "is_fetch _ = False"

definition fetches :: "nat \<Rightarrow> observer \<Rightarrow> nat" where
  "fetches el st = length (filter is_fetch (trace (worlds st el)))"

definition intersecting_reports :: "nat \<Rightarrow> entry list \<Rightarrow> nat" where
  "intersecting_reports el batch = length (filter (\<lambda>x. isIntersecting x \<and> target x = el) batch)"

section \<open>Reading a tree\<close>

text \<open>All descendants of a node, in document order.\<close>

fun descendants :: "svg_node \<Rightarrow> svg_node list" where
  "descendants (Node t as cs) = concat (map (\<lambda>c. c # descendants c) cs)"

text \<open>The descendants that are neither a \<^verbatim>\<open>script\<close> element nor inside one.\<close>

fun outside_scripts :: "svg_node \<Rightarrow> svg_node list" where
  "outside_scripts (Node t as cs) =
     concat (map (\<lambda>c. c # outside_scripts c) (filter (\<lambda>c. tag c \<noteq> ''script'') cs))"

section \<open>Example inputs\<close>

definition img_foo :: element where
  "img_foo = \<lparr>data_src = Some ''icon.svg'', data_removeAttrs = Some '' foo ,baz'', data_addAttrs = None,
     data_setSvgSize = None, data_removeScripts = None, classes = [], width = Some 64, height = Some 32\<rparr>"

definition svg_demo :: svg_node where
  "svg_demo = Node ''svg'' [(''foo'', ''1''), (''onclick'', ''x()''), (''bar'', ''2'')]
     [Node ''script'' [] [], Node ''g'' [(''onclick'', ''y()'')] [Node ''script'' [] []]]"

definition img_flags :: element where
  "img_flags = \<lparr>data_src = Some ''icon.svg'', data_removeAttrs = None, data_addAttrs = None,
     data_setSvgSize = Some ''false'', data_removeScripts = Some ''0'', classes = [],
     width = Some 64, height = Some 32\<rparr>"

definition img_malformed :: element where
  "img_malformed = \<lparr>data_src = Some ''icon.svg'', data_removeAttrs = None, data_addAttrs = Some ''foo'',
     data_setSvgSize = None, data_removeScripts = None, classes = [],
     width = Some 64, height = Some 32\<rparr>"

definition svg_text :: string where
  "svg_text = ''<svg foo=1 onclick=x() bar=2><script></script><g onclick=y()><script></script></g></svg>''"

definition pf_demo :: platform where
  "pf_demo = \<lparr>query_svg = (\<lambda>s. if s = svg_text then Some svg_demo else None),
     valid_name = (\<lambda>n. n \<noteq> [] \<and> \<not> list_ex is_space n)\<rparr>"

definition img_plain :: element where
  "img_plain = \<lparr>data_src = Some ''icon.svg'', data_removeAttrs = None, data_addAttrs = None,
     data_setSvgSize = None, data_removeScripts = None, classes = [''js-lazy-inline-svg''],
     width = Some 64, height = Some 32\<rparr>"

definition img_no_src :: element where
  "img_no_src = \<lparr>data_src = None, data_removeAttrs = None, data_addAttrs = None,
     data_setSvgSize = None, data_removeScripts = None, classes = [''js-lazy-inline-svg''],
     width = Some 64, height = Some 32\<rparr>"

definition page :: "element \<Rightarrow> world" where
  "page el = \<lparr>elem = el, parent_children = [Other 0, Placeholder, Other 1], inlineSvg = None, trace = []\<rparr>"

definition detached :: "element \<Rightarrow> world" where
  "detached el = \<lparr>elem = el, parent_children = [], inlineSvg = None, trace = []\<rparr>"

definition loader_demo :: loader where
  "loader_demo = \<lparr>inst_element = 0, inst_options = default_options\<rparr>"

text \<open>
  The placeholder comes into view, leaves and comes back before the browser
  delivers the queued entries.
\<close>

definition reentry_batch :: "entry list" where
  "reentry_batch = [\<lparr>isIntersecting = True, target = 0\<rparr>, \<lparr>isIntersecting = False, target = 0\<rparr>,
     \<lparr>isIntersecting = True, target = 0\<rparr>]"

definition separate_batches :: "entry list list" where
  "separate_batches =
     [\<lparr>isIntersecting = False, target = 0\<rparr>]
     # [\<lparr>isIntersecting = True, target = 0\<rparr>]
     # [\<lparr>isIntersecting = False, target = 0\<rparr>, \<lparr>isIntersecting = True, target = 0\<rparr>]
     # []"

section \<open>Properties of the sanitizing steps\<close>

lemma forEach_node:
  "forEach (\<lambda>x cur. case cur of None \<Rightarrow> (None, Some TypeError) | Some n \<Rightarrow> (Some (g x n), None)) xs (Some n)
     = (Some (fold g xs n), None)"
  by (induction xs arbitrary: n) auto

lemma forEach_null:
  "xs \<noteq> [] \<Longrightarrow>
   forEach (\<lambda>x cur. case cur of None \<Rightarrow> (None, Some TypeError) | Some n \<Rightarrow> (Some (g x n), None)) xs None
     = (None, Some TypeError)"
  by (cases xs) auto

lemma split_on_nonempty: "split_on sep s \<noteq> []"
  by (induction s) (auto split: list.splits)

lemma fold_removeAttribute:
  "fold (\<lambda>a cur. if P a then removeAttribute (h a) cur else cur) ns (Node t as cs)
     = Node t (fold (\<lambda>a bs. if P a then remove_first (h a) bs else bs) ns as) cs"
  by (induction ns arbitrary: as) auto

lemma remove_first_distinct:
  "distinct (map fst as) \<Longrightarrow> remove_first k as = filter (\<lambda>kv. fst kv \<noteq> k) as"
proof (induction as)
  case Nil
  then show ?case by simp
next
  case (Cons kv as)
  show ?case
  proof (cases "fst kv = k")
    case True
    with Cons.prems have "k \<notin> fst ` set as" by auto
    then have "filter (\<lambda>kv. fst kv \<noteq> k) as = as"
      by (intro filter_True) auto
    with True show ?thesis by simp
  next
    case False
    with Cons show ?thesis by simp
  qed
qed

lemma fold_remove_first_distinct:
  "distinct (map fst as) \<Longrightarrow>
   fold (\<lambda>a bs. remove_first (h a) bs) ks as = filter (\<lambda>kv. fst kv \<notin> set (map h ks)) as"
proof (induction ks arbitrary: as)
  case Nil
  then show ?case by simp
next
  case (Cons k ks)
  have d: "distinct (map fst (filter (\<lambda>kv. fst kv \<noteq> h k) as))"
    using Cons.prems by (simp add: distinct_map_filter)
  have "fold (\<lambda>a bs. remove_first (h a) bs) (k # ks) as
          = fold (\<lambda>a bs. remove_first (h a) bs) ks (filter (\<lambda>kv. fst kv \<noteq> h k) as)"
    using Cons.prems by (simp add: remove_first_distinct)
  also have "\<dots> = filter (\<lambda>kv. fst kv \<notin> set (map h ks)) (filter (\<lambda>kv. fst kv \<noteq> h k) as)"
    by (rule Cons.IH [OF d])
  also have "\<dots> = filter (\<lambda>kv. fst kv \<notin> set (map h (k # ks))) as"
    by (auto intro: filter_cong)
  finally show ?case .
qed

text \<open>
  C6: when the placeholder declares a non-empty \<^verbatim>\<open>data-remove-attrs\<close> list, the
  root of the parsed SVG loses exactly the attributes whose name is one of the
  comma-separated, trimmed entries; a listed name that is not on the root changes
  nothing and raises nothing; every other attribute stays, in its place. The
  attribute names of a parsed element are pairwise distinct.
\<close>

theorem removeAttrs_strips_listed:
  assumes "data_removeAttrs el = Some s" and "s \<noteq> []" and "distinct (map fst as)"
  shows "removeAttrs el (Some (Node t as cs))
           = (Some (Node t (filter (\<lambda>kv. fst kv \<notin> set (map trim (split_on CHR '','' s))) as) cs), None)"
proof -
  have "removeAttrs el (Some (Node t as cs))
          = (Some (fold (\<lambda>a cur. removeAttribute (trim a) cur) (split_on CHR '','' s) (Node t as cs)), None)"
    using assms(1,2) by (simp add: removeAttrs_def forEach_node)
  also have "fold (\<lambda>a cur. removeAttribute (trim a) cur) (split_on CHR '','' s) (Node t as cs)
          = Node t (fold (\<lambda>a bs. remove_first (trim a) bs) (split_on CHR '','' s) as) cs"
    using fold_removeAttribute [of "\<lambda>_. True" trim] by simp
  finally show ?thesis
    using assms(3) by (simp add: fold_remove_first_distinct)
qed

theorem removeAttrs_strips_listed_witness:
  "data_removeAttrs img_foo = Some '' foo ,baz'' \<and> '' foo ,baz'' \<noteq> [] \<and>
   distinct (map fst [(''foo'', ''1''), (''bar'', ''2'')]) \<and>
   removeAttrs img_foo (Some (Node ''svg'' [(''foo'', ''1''), (''bar'', ''2'')] []))
     = (Some (Node ''svg'' [(''bar'', ''2'')] []), None)"
proof -
  have h1: "data_removeAttrs img_foo = Some '' foo ,baz''" by (simp add: img_foo_def)
  have h2: "'' foo ,baz'' \<noteq> []" by simp
  have h3: "distinct (map fst [(''foo'', ''1''), (''bar'', ''2'')])" by simp
  have e: "map trim (split_on CHR '','' '' foo ,baz'') = [''foo'', ''baz'']" by code_simp
  show ?thesis
    using removeAttrs_strips_listed [OF h1 h2 h3, of "''svg''" "[]"] h1 unfolding e by simp
qed

lemma count_remove_first:
  "count_list (map fst (remove_first k as)) j
     = (if j = k then count_list (map fst as) j - 1 else count_list (map fst as) j)"
  by (induction as) auto

lemma filter_remove_first:
  "P k \<Longrightarrow> filter (\<lambda>kv. \<not> P (fst kv)) (remove_first k as) = filter (\<lambda>kv. \<not> P (fst kv)) as"
  by (induction as) auto

lemma fold_remove_matching:
  "(\<And>j. P j \<Longrightarrow> count_list (map fst as) j \<le> count_list ns j) \<Longrightarrow>
   fold (\<lambda>a bs. if P a then remove_first a bs else bs) ns as = filter (\<lambda>kv. \<not> P (fst kv)) as"
proof (induction ns arbitrary: as)
  case Nil
  have "\<not> P (fst kv)" if "kv \<in> set as" for kv
  proof
    assume "P (fst kv)"
    then have "count_list (map fst as) (fst kv) = 0" using Nil by force
    then have "fst kv \<notin> set (map fst as)" by (simp add: count_list_0_iff)
    with that show False by auto
  qed
  then show ?case by (simp add: filter_True)
next
  case (Cons k ns)
  show ?case
  proof (cases "P k")
    case True
    have "fold (\<lambda>a bs. if P a then remove_first a bs else bs) ns (remove_first k as)
            = filter (\<lambda>kv. \<not> P (fst kv)) (remove_first k as)"
    proof (rule Cons.IH)
      fix j assume "P j"
      then show "count_list (map fst (remove_first k as)) j \<le> count_list ns j"
        using Cons.prems [of j] by (auto simp: count_remove_first)
    qed
    with True show ?thesis by (simp add: filter_remove_first)
  next
    case False
    have "fold (\<lambda>a bs. if P a then remove_first a bs else bs) ns as
            = filter (\<lambda>kv. \<not> P (fst kv)) as"
    proof (rule Cons.IH)
      fix j assume "P j"
      then show "count_list (map fst as) j \<le> count_list ns j"
        using Cons.prems [of j] False by (auto split: if_splits)
    qed
    with False show ?thesis by simp
  qed
qed

lemma remove_script_elements_sel:
  "tag (remove_script_elements n) = tag n" "attrs (remove_script_elements n) = attrs n"
  by (cases n; simp)+

lemma no_script_left:
  "list_all (\<lambda>d. tag d \<noteq> ''script'') (descendants (remove_script_elements n))"
proof (induction n rule: remove_script_elements.induct)
  case (1 t as cs)
  then show ?case
    by (auto simp: list_all_iff remove_script_elements_sel)
qed

lemma survivors_keep_attrs:
  "map (\<lambda>d. (tag d, attrs d)) (descendants (remove_script_elements n))
     = map (\<lambda>d. (tag d, attrs d)) (outside_scripts n)"
proof (induction n rule: remove_script_elements.induct)
  case (1 t as cs)
  let ?g = "\<lambda>d. (tag d, attrs d)"
  let ?keep = "filter (\<lambda>c. tag c \<noteq> ''script'') cs"
  have step: "map ?g (remove_script_elements c # descendants (remove_script_elements c))
                = map ?g (c # outside_scripts c)" if "c \<in> set ?keep" for c
    using that 1 [of c] by (simp add: remove_script_elements_sel)
  have "map (\<lambda>c. map ?g (remove_script_elements c # descendants (remove_script_elements c))) ?keep
          = map (\<lambda>c. map ?g (c # outside_scripts c)) ?keep"
    by (rule map_cong [OF refl]) (rule step)
  then have "concat (map (\<lambda>c. map ?g (remove_script_elements c # descendants (remove_script_elements c))) ?keep)
          = concat (map (\<lambda>c. map ?g (c # outside_scripts c)) ?keep)"
    by (rule arg_cong)
  moreover have "map ?g (descendants (remove_script_elements (Node t as cs)))
          = concat (map (\<lambda>c. map ?g (remove_script_elements c # descendants (remove_script_elements c))) ?keep)"
    by (simp only: remove_script_elements.simps descendants.simps map_concat map_map comp_def)
  moreover have "map ?g (outside_scripts (Node t as cs))
          = concat (map (\<lambda>c. map ?g (c # outside_scripts c)) ?keep)"
    by (simp only: outside_scripts.simps map_concat map_map comp_def)
  ultimately show ?case by (simp only:)
qed

lemma removeScripts_node:
  assumes "truthy (data_removeScripts el)"
  shows "removeScripts el (Some n)
           = (Some (Node (tag n) (filter (\<lambda>kv. \<not> attrsStartedFromOn (fst kv)) (attrs n))
                      (children (remove_script_elements n))), None)"
proof (cases n)
  case (Node t as cs)
  have "fold (\<lambda>a bs. if attrsStartedFromOn a then remove_first a bs else bs) (map fst as) as
          = filter (\<lambda>kv. \<not> attrsStartedFromOn (fst kv)) as"
    by (rule fold_remove_matching) simp
  then show ?thesis
    using assms Node fold_removeAttribute [of attrsStartedFromOn "\<lambda>a. a" "map fst as" t as]
    by (simp add: removeScripts_def getAttributeNames_def)
qed

text \<open>
  C4: with the script-removal flag set, \<^verbatim>\<open>removeScripts\<close> returns a node that has
  no \<^verbatim>\<open>script\<close> descendant and whose root attributes are those of the input
  without every name that starts with \<^verbatim>\<open>on\<close> in any letter case; the elements
  that are not inside a script keep their tag and all their attributes, the
  \<^verbatim>\<open>on*\<close> ones included.
\<close>

theorem removeScripts_strips_scripts_and_root_handlers:
  assumes "truthy (data_removeScripts el)"
  shows "\<exists>n'. removeScripts el (Some n) = (Some n', None)
           \<and> list_all (\<lambda>d. tag d \<noteq> ''script'') (descendants n')
           \<and> attrs n' = filter (\<lambda>kv. \<not> attrsStartedFromOn (fst kv)) (attrs n)
           \<and> list_all (\<lambda>k. \<not> attrsStartedFromOn k) (getAttributeNames n')
           \<and> map (\<lambda>d. (tag d, attrs d)) (descendants n')
               = map (\<lambda>d. (tag d, attrs d)) (outside_scripts n)"
proof -
  let ?n' = "Node (tag n) (filter (\<lambda>kv. \<not> attrsStartedFromOn (fst kv)) (attrs n))
               (children (remove_script_elements n))"
  have r: "removeScripts el (Some n) = (Some ?n', None)"
    by (rule removeScripts_node [OF assms])
  have d: "descendants ?n' = descendants (remove_script_elements n)"
    by (cases n) simp
  have 1: "list_all (\<lambda>d. tag d \<noteq> ''script'') (descendants ?n')"
    unfolding d by (rule no_script_left)
  have 2: "list_all (\<lambda>k. \<not> attrsStartedFromOn k) (getAttributeNames ?n')"
    by (simp add: getAttributeNames_def list_all_iff)
  have 3: "map (\<lambda>d. (tag d, attrs d)) (descendants ?n')
             = map (\<lambda>d. (tag d, attrs d)) (outside_scripts n)"
    unfolding d by (rule survivors_keep_attrs)
  from r 1 2 3 show ?thesis by simp
qed

theorem removeScripts_strips_scripts_and_root_handlers_witness:
  "truthy (data_removeScripts img_flags) \<and>
   removeScripts img_flags (Some svg_demo)
     = (Some (Node ''svg'' [(''foo'', ''1''), (''bar'', ''2'')] [Node ''g'' [(''onclick'', ''y()'')] []]), None) \<and>
   (\<exists>n'. removeScripts img_flags (Some svg_demo) = (Some n', None)
           \<and> list_all (\<lambda>d. tag d \<noteq> ''script'') (descendants n')
           \<and> attrs n' = filter (\<lambda>kv. \<not> attrsStartedFromOn (fst kv)) (attrs svg_demo)
           \<and> list_all (\<lambda>k. \<not> attrsStartedFromOn k) (getAttributeNames n')
           \<and> map (\<lambda>d. (tag d, attrs d)) (descendants n')
               = map (\<lambda>d. (tag d, attrs d)) (outside_scripts svg_demo))"
proof -
  have h: "truthy (data_removeScripts img_flags)" by (simp add: img_flags_def)
  have e: "removeScripts img_flags (Some svg_demo)
     = (Some (Node ''svg'' [(''foo'', ''1''), (''bar'', ''2'')] [Node ''g'' [(''onclick'', ''y()'')] []]), None)"
    by code_simp
  show ?thesis
    using h e removeScripts_strips_scripts_and_root_handlers [OF h, of svg_demo] by blast
qed

lemma map_of_set_first_same: "map_of (set_first k v as) k = Some v"
  by (induction as) auto

lemma map_of_set_first_other: "j \<noteq> k \<Longrightarrow> map_of (set_first k v as) j = map_of as j"
  by (induction as) auto

lemma setSvgSize_node:
  assumes "truthy (data_setSvgSize el)"
  shows "\<exists>n'. setSvgSize el (Some n) = (Some n', None)
           \<and> map_of (attrs n') ''width'' = Some (show_size (width el))
           \<and> map_of (attrs n') ''height'' = Some (show_size (height el))"
  using assms
  by (cases n) (simp add: setSvgSize_def map_of_set_first_same map_of_set_first_other)

text \<open>
  C9: \<^verbatim>\<open>setSvgSize\<close> and \<^verbatim>\<open>removeScripts\<close> are decided by the truthiness of
  their dataset string alone. An absent or empty value leaves \<^verbatim>\<open>inlineSvg\<close> as
  it is (also when it is \<^verbatim>\<open>null\<close>); any non-empty value, \<^verbatim>\<open>false\<close> and
  \<^verbatim>\<open>0\<close> included, runs the step: the root gets the placeholder's width and
  height, or loses its scripts and its \<^verbatim>\<open>on*\<close> attributes.
\<close>

theorem flags_follow_truthiness:
  "((data_setSvgSize el = None \<or> data_setSvgSize el = Some []) \<longrightarrow> setSvgSize el svg = (svg, None))
   \<and> ((data_removeScripts el = None \<or> data_removeScripts el = Some []) \<longrightarrow> removeScripts el svg = (svg, None))
   \<and> (\<forall>s. data_setSvgSize el = Some s \<and> s \<noteq> [] \<longrightarrow>
         (\<exists>n'. setSvgSize el (Some n) = (Some n', None)
            \<and> map_of (attrs n') ''width'' = Some (show_size (width el))
            \<and> map_of (attrs n') ''height'' = Some (show_size (height el))))
   \<and> (\<forall>s. data_removeScripts el = Some s \<and> s \<noteq> [] \<longrightarrow>
         (\<exists>n'. removeScripts el (Some n) = (Some n', None)
            \<and> list_all (\<lambda>d. tag d \<noteq> ''script'') (descendants n')
            \<and> list_all (\<lambda>k. \<not> attrsStartedFromOn k) (getAttributeNames n')))"
proof (intro conjI allI impI)
  assume "data_setSvgSize el = None \<or> data_setSvgSize el = Some []"
  then show "setSvgSize el svg = (svg, None)"
    by (auto simp: setSvgSize_def)
next
  assume "data_removeScripts el = None \<or> data_removeScripts el = Some []"
  then show "removeScripts el svg = (svg, None)"
    by (auto simp: removeScripts_def)
next
  fix s assume "data_setSvgSize el = Some s \<and> s \<noteq> []"
  then have "truthy (data_setSvgSize el)" by simp
  then show "\<exists>n'. setSvgSize el (Some n) = (Some n', None)
            \<and> map_of (attrs n') ''width'' = Some (show_size (width el))
            \<and> map_of (attrs n') ''height'' = Some (show_size (height el))"
    by (rule setSvgSize_node)
next
  fix s assume "data_removeScripts el = Some s \<and> s \<noteq> []"
  then have t: "truthy (data_removeScripts el)" by simp
  let ?n' = "Node (tag n) (filter (\<lambda>kv. \<not> attrsStartedFromOn (fst kv)) (attrs n))
               (children (remove_script_elements n))"
  have d: "descendants ?n' = descendants (remove_script_elements n)"
    by (cases n) simp
  have "list_all (\<lambda>d. tag d \<noteq> ''script'') (descendants ?n')"
    unfolding d by (rule no_script_left)
  moreover have "list_all (\<lambda>k. \<not> attrsStartedFromOn k) (getAttributeNames ?n')"
    by (simp add: getAttributeNames_def list_all_iff)
  ultimately show "\<exists>n'. removeScripts el (Some n) = (Some n', None)
            \<and> list_all (\<lambda>d. tag d \<noteq> ''script'') (descendants n')
            \<and> list_all (\<lambda>k. \<not> attrsStartedFromOn k) (getAttributeNames n')"
    using removeScripts_node [OF t, of n] by simp
qed

theorem flags_follow_truthiness_witness:
  "setSvgSize img_foo (Some svg_demo) = (Some svg_demo, None)
   \<and> removeScripts img_foo (Some svg_demo) = (Some svg_demo, None)
   \<and> data_setSvgSize img_flags = Some ''false'' \<and> data_removeScripts img_flags = Some ''0''
   \<and> (\<exists>n'. setSvgSize img_flags (Some svg_demo) = (Some n', None)
            \<and> map_of (attrs n') ''width'' = Some ''64''
            \<and> map_of (attrs n') ''height'' = Some ''32'')
   \<and> (\<exists>n'. removeScripts img_flags (Some svg_demo) = (Some n', None)
            \<and> list_all (\<lambda>d. tag d \<noteq> ''script'') (descendants n')
            \<and> list_all (\<lambda>k. \<not> attrsStartedFromOn k) (getAttributeNames n'))"
proof -
  have a: "data_setSvgSize img_foo = None" "data_removeScripts img_foo = None"
    by (simp_all add: img_foo_def)
  have b: "data_setSvgSize img_flags = Some ''false''" "data_removeScripts img_flags = Some ''0''"
    by (simp_all add: img_flags_def)
  have c: "show_size (width img_flags) = ''64''" "show_size (height img_flags) = ''32''"
    by code_simp+
  have n: "''false'' \<noteq> []" "''0'' \<noteq> []" by simp_all
  show ?thesis
    using flags_follow_truthiness [of img_foo "Some svg_demo" svg_demo]
      flags_follow_truthiness [of img_flags "Some svg_demo" svg_demo] a b c n
    by (simp only: simp_thms)
qed

section \<open>A missing node, a missing match\<close>

lemma removeAttrs_on_node: "\<exists>n'. removeAttrs el (Some n) = (Some n', None)"
  by (simp add: removeAttrs_def forEach_node split: option.splits)

lemma removeAttrs_on_null:
  "removeAttrs el None = (None, if truthy (data_removeAttrs el) then Some TypeError else None)"
  by (simp add: removeAttrs_def forEach_null split_on_nonempty split: option.splits)

lemma removeScripts_on_node: "\<exists>n'. removeScripts el (Some n) = (Some n', None)"
  by (simp add: removeScripts_def Let_def)

lemma removeScripts_on_null:
  "removeScripts el None = (None, if truthy (data_removeScripts el) then Some TypeError else None)"
  by (simp add: removeScripts_def)

lemma setSvgSize_on_null:
  "setSvgSize el None = (None, if truthy (data_setSvgSize el) then Some TypeError else None)"
  by (simp add: setSvgSize_def)

lemma js_match_Some: "js_match s = Some ms \<Longrightarrow> ms \<noteq> []"
  by (auto simp: js_match_def split: list.splits)

lemma addAttrs_on_null:
  "addAttrs valid el None = (None, if truthy (data_addAttrs el) then Some TypeError else None)"
proof (cases "data_addAttrs el")
  case None
  then show ?thesis by (simp add: addAttrs_def)
next
  case (Some s)
  show ?thesis
  proof (cases "s = []")
    case True
    with Some show ?thesis by (simp add: addAttrs_def)
  next
    case False
    show ?thesis
    proof (cases "js_match s")
      case None
      with Some False show ?thesis by (simp add: addAttrs_def)
    next
      case (Some ms)
      then obtain m ms' where "ms = m # ms'"
        using js_match_Some by (cases ms) auto
      with Some \<open>data_addAttrs el = Some s\<close> False show ?thesis
        by (simp add: addAttrs_def split: list.splits)
    qed
  qed
qed

lemma addAttrs_null_match:
  assumes "data_addAttrs el = Some s" and "s \<noteq> []" and "js_match s = None"
  shows "addAttrs valid el svg = (svg, Some TypeError)"
  using assms by (simp add: addAttrs_def)

lemma sanitize_null_match:
  assumes "data_addAttrs el = Some s" and "s \<noteq> []" and "js_match s = None"
  shows "snd (sanitize pf el svg) = Some TypeError"
proof (cases svg)
  case None
  then show ?thesis
    using assms
    by (simp add: sanitize_def and_then_def removeAttrs_on_null removeScripts_on_null
        addAttrs_null_match)
next
  case (Some n)
  obtain n1 where 1: "removeAttrs el (Some n) = (Some n1, None)"
    using removeAttrs_on_node by blast
  obtain n2 where 2: "removeScripts el (Some n1) = (Some n2, None)"
    using removeScripts_on_node by blast
  show ?thesis
    using Some 1 2 addAttrs_null_match [OF assms]
    by (simp add: sanitize_def and_then_def)
qed

text \<open>
  C3: for a non-empty \<^verbatim>\<open>data-add-attrs\<close> string in which the pattern matches
  nowhere, \<^verbatim>\<open>match\<close> returns \<^verbatim>\<open>null\<close> and \<^verbatim>\<open>addAttrs\<close> calls
  \<^verbatim>\<open>forEach\<close> on it: the step throws \<^verbatim>\<open>TypeError\<close> instead of doing nothing,
  and \<^verbatim>\<open>replaceImgWithSvg\<close> of either variant ends with that error before the
  swap, the children of the parent untouched.
\<close>

theorem addAttrs_null_match_throws:
  assumes "data_addAttrs (elem w) = Some s" and "s \<noteq> []" and "js_match s = None"
  shows "addAttrs (valid_name pf) (elem w) svg = (svg, Some TypeError)
         \<and> snd (replaceImgWithSvg pf w) = Some TypeError
         \<and> parent_children (fst (replaceImgWithSvg pf w)) = parent_children w
         \<and> snd (replaceImgWithSvg_wp pf text w) = Some TypeError
         \<and> parent_children (fst (replaceImgWithSvg_wp pf text w)) = parent_children w"
proof -
  have a: "snd (sanitize pf (elem w) (inlineSvg w)) = Some TypeError"
    by (rule sanitize_null_match [OF assms])
  have b: "snd (sanitize pf (elem w) (parseSvgStringToHtml pf text)) = Some TypeError"
    by (rule sanitize_null_match [OF assms])
  have 1: "snd (replaceImgWithSvg pf w) = Some TypeError
           \<and> parent_children (fst (replaceImgWithSvg pf w)) = parent_children w"
    using a by (cases "sanitize pf (elem w) (inlineSvg w)") (simp add: replaceImgWithSvg_def)
  have 2: "snd (replaceImgWithSvg_wp pf text w) = Some TypeError
           \<and> parent_children (fst (replaceImgWithSvg_wp pf text w)) = parent_children w"
    using b by (cases "sanitize pf (elem w) (parseSvgStringToHtml pf text)")
      (simp add: replaceImgWithSvg_wp_def log_event_def)
  show ?thesis
    using addAttrs_null_match [OF assms] 1 2 by simp
qed

theorem addAttrs_null_match_throws_witness:
  "data_addAttrs (elem (page img_malformed)) = Some ''foo'' \<and> ''foo'' \<noteq> [] \<and> js_match ''foo'' = None
   \<and> addAttrs (valid_name pf_demo) (elem (page img_malformed)) (Some svg_demo) = (Some svg_demo, Some TypeError)
   \<and> snd (replaceImgWithSvg_wp pf_demo svg_text (page img_malformed)) = Some TypeError
   \<and> parent_children (fst (replaceImgWithSvg_wp pf_demo svg_text (page img_malformed)))
       = [Other 0, Placeholder, Other 1]
   \<and> trace (fst (getSvg pf_demo default_options (Responds True (Text svg_text)) (page img_malformed)))
       = [ClassListAdd (JStr ''js-svg-loading''), FetchCall (JStr ''icon.svg''), ResponseText,
          ParseCall svg_text, ConsoleError TypeError, ClassListRemove (JStr ''js-svg-loading'')]"
proof -
  have h1: "data_addAttrs (elem (page img_malformed)) = Some ''foo''"
    by (simp add: page_def img_malformed_def)
  have h2: "''foo'' \<noteq> []" by simp
  have h3: "js_match ''foo'' = None" by code_simp
  have p: "parent_children (page img_malformed) = [Other 0, Placeholder, Other 1]"
    by (simp add: page_def)
  have t: "trace (fst (getSvg pf_demo default_options (Responds True (Text svg_text)) (page img_malformed)))
       = [ClassListAdd (JStr ''js-svg-loading''), FetchCall (JStr ''icon.svg''), ResponseText,
          ParseCall svg_text, ConsoleError TypeError, ClassListRemove (JStr ''js-svg-loading'')]"
    by code_simp
  show ?thesis
    using addAttrs_null_match_throws [OF h1 h2 h3, of pf_demo "Some svg_demo" svg_text] h1 h3 p t
    by simp
qed

section \<open>The fetch attempt\<close>

lemma swap_keeps_elem: "elem (fst (swap svg w)) = elem w"
  by (simp add: swap_def log_event_def split: option.splits)

lemma replaceImgWithSvg_keeps_elem: "elem (fst (replaceImgWithSvg pf w)) = elem w"
proof (cases "sanitize pf (elem w) (inlineSvg w)")
  case (Pair svg err)
  then show ?thesis
    using swap_keeps_elem [of svg "w\<lparr>inlineSvg := svg\<rparr>"]
    by (cases err) (simp_all add: replaceImgWithSvg_def)
qed

lemma replaceImgWithSvg_wp_keeps_elem: "elem (fst (replaceImgWithSvg_wp pf text w)) = elem w"
proof (cases "sanitize pf (elem w) (parseSvgStringToHtml pf text)")
  case (Pair svg err)
  then show ?thesis
    using swap_keeps_elem [of svg "log_event (ParseCall text) w"]
    by (cases err) (simp_all add: replaceImgWithSvg_wp_def log_event_def)
qed

lemma getSvg_try_keeps_elem: "elem (getSvg_try pf outcome w) = elem w"
proof (cases outcome)
  case (Rejects e)
  then show ?thesis by (simp add: getSvg_try_def console_error_def log_event_def)
next
  case (Responds ok b)
  show ?thesis
  proof (cases b)
    case (TextFails e)
    with Responds show ?thesis
      by (simp add: getSvg_try_def console_error_def log_event_def)
  next
    case (Text s)
    let ?w = "(log_event (ParseCall s) (log_event ResponseText w))\<lparr>inlineSvg := parseSvgStringToHtml pf s\<rparr>"
    have "elem (fst (replaceImgWithSvg pf ?w)) = elem w"
      by (simp add: replaceImgWithSvg_keeps_elem log_event_def)
    with Responds Text show ?thesis
      by (cases "replaceImgWithSvg pf ?w")
        (auto simp: getSvg_try_def console_error_def log_event_def split: option.splits)
  qed
qed

lemma getSvg_try_wp_keeps_elem: "elem (getSvg_try_wp pf outcome w) = elem w"
proof (cases outcome)
  case (Rejects e)
  then show ?thesis by (simp add: getSvg_try_wp_def console_error_def log_event_def)
next
  case (Responds ok b)
  show ?thesis
  proof (cases b)
    case (TextFails e)
    with Responds show ?thesis
      by (simp add: getSvg_try_wp_def console_error_def log_event_def)
  next
    case (Text s)
    have "elem (fst (replaceImgWithSvg_wp pf s (log_event ResponseText w))) = elem w"
      by (simp add: replaceImgWithSvg_wp_keeps_elem log_event_def)
    with Responds Text show ?thesis
      by (cases "replaceImgWithSvg_wp pf s (log_event ResponseText w)")
        (auto simp: getSvg_try_wp_def console_error_def log_event_def split: option.splits)
  qed
qed

lemma getSvg_start_ok:
  assumes "token_error (to_string (loadingClass opts)) = None"
  shows "getSvg_start opts w =
           (w\<lparr>elem := (if List.member (classes (elem w)) (to_string (loadingClass opts)) then elem w
                         else (elem w)\<lparr>classes := classes (elem w) @ [to_string (loadingClass opts)]\<rparr>),
              trace := trace w @ [ClassListAdd (loadingClass opts), FetchCall (from_data (data_src (elem w)))]\<rparr>,
            None)"
  using assms by (simp add: getSvg_start_def classList_add_def log_event_def Let_def)

lemma getSvg_start_bad:
  assumes "token_error (to_string (loadingClass opts)) = Some e"
  shows "getSvg_start opts w = (w\<lparr>trace := trace w @ [ClassListAdd (loadingClass opts)]\<rparr>, Some e)"
  using assms by (simp add: getSvg_start_def classList_add_def log_event_def Let_def)

lemma getSvg_start_adds_class:
  assumes "token_error (to_string (loadingClass opts)) = None"
  shows "to_string (loadingClass opts) \<in> set (classes (elem (fst (getSvg_start opts w))))"
  using assms by (simp add: getSvg_start_ok)

lemma getSvg_finally_ok:
  assumes "token_error (to_string (loadingClass opts)) = None"
  shows "getSvg_finally opts w =
           (w\<lparr>elem := (elem w)\<lparr>classes := removeAll (to_string (loadingClass opts)) (classes (elem w))\<rparr>,
              trace := trace w @ [ClassListRemove (loadingClass opts)]\<rparr>, None)"
  using assms by (simp add: getSvg_finally_def classList_remove_def log_event_def Let_def)

lemma getSvg_try_non_ok: "getSvg_try pf (Responds False b) w = w"
  by (simp add: getSvg_try_def)

lemma getSvg_try_wp_non_ok: "getSvg_try_wp pf (Responds False b) w = w"
  by (simp add: getSvg_try_wp_def)

lemma swap_extends_trace: "\<exists>evs. trace (fst (swap svg w)) = trace w @ evs"
  by (simp add: swap_def log_event_def split: option.splits)

lemma replaceImgWithSvg_extends_trace: "\<exists>evs. trace (fst (replaceImgWithSvg pf w)) = trace w @ evs"
proof (cases "sanitize pf (elem w) (inlineSvg w)")
  case (Pair svg err)
  then show ?thesis
    using swap_extends_trace [of svg "w\<lparr>inlineSvg := svg\<rparr>"]
    by (cases err) (simp_all add: replaceImgWithSvg_def)
qed

lemma replaceImgWithSvg_wp_extends_trace:
  "\<exists>evs. trace (fst (replaceImgWithSvg_wp pf text w)) = trace w @ evs"
proof (cases "sanitize pf (elem w) (parseSvgStringToHtml pf text)")
  case (Pair svg err)
  then show ?thesis
    using swap_extends_trace [of svg "log_event (ParseCall text) w"]
    by (cases err) (auto simp: replaceImgWithSvg_wp_def log_event_def)
qed

lemma getSvg_try_extends_trace: "\<exists>evs. trace (getSvg_try pf outcome w) = trace w @ evs"
proof (cases outcome)
  case (Rejects e)
  then show ?thesis by (simp add: getSvg_try_def console_error_def log_event_def)
next
  case (Responds ok b)
  show ?thesis
  proof (cases b)
    case (TextFails e)
    with Responds show ?thesis
      by (simp add: getSvg_try_def console_error_def log_event_def)
  next
    case (Text s)
    let ?w = "(log_event (ParseCall s) (log_event ResponseText w))\<lparr>inlineSvg := parseSvgStringToHtml pf s\<rparr>"
    obtain evs where "trace (fst (replaceImgWithSvg pf ?w)) = trace ?w @ evs"
      using replaceImgWithSvg_extends_trace by blast
    then have "trace (fst (replaceImgWithSvg pf ?w)) = trace w @ [ResponseText, ParseCall s] @ evs"
      by (simp add: log_event_def)
    with Responds Text show ?thesis
      by (cases "replaceImgWithSvg pf ?w")
        (auto simp: getSvg_try_def console_error_def log_event_def split: option.splits)
  qed
qed

lemma getSvg_try_wp_extends_trace: "\<exists>evs. trace (getSvg_try_wp pf outcome w) = trace w @ evs"
proof (cases outcome)
  case (Rejects e)
  then show ?thesis by (simp add: getSvg_try_wp_def console_error_def log_event_def)
next
  case (Responds ok b)
  show ?thesis
  proof (cases b)
    case (TextFails e)
    with Responds show ?thesis
      by (simp add: getSvg_try_wp_def console_error_def log_event_def)
  next
    case (Text s)
    obtain evs where "trace (fst (replaceImgWithSvg_wp pf s (log_event ResponseText w)))
                        = trace (log_event ResponseText w) @ evs"
      using replaceImgWithSvg_wp_extends_trace by blast
    then have "trace (fst (replaceImgWithSvg_wp pf s (log_event ResponseText w)))
                 = trace w @ [ResponseText] @ evs"
      by (simp add: log_event_def)
    with Responds Text show ?thesis
      by (cases "replaceImgWithSvg_wp pf s (log_event ResponseText w)")
        (auto simp: getSvg_try_wp_def console_error_def log_event_def split: option.splits)
  qed
qed

lemma swap_never_removes_class:
  "\<exists>evs. trace (fst (swap svg w)) = trace w @ evs \<and> (\<forall>v. ClassListRemove v \<notin> set evs)"
  by (simp add: swap_def log_event_def split: option.splits)

lemma replaceImgWithSvg_wp_never_removes_class:
  "\<exists>evs. trace (fst (replaceImgWithSvg_wp pf text w)) = trace w @ evs
         \<and> (\<forall>v. ClassListRemove v \<notin> set evs)"
proof (cases "sanitize pf (elem w) (parseSvgStringToHtml pf text)")
  case (Pair svg err)
  obtain evs where e: "trace (fst (swap svg (log_event (ParseCall text) w)))
                         = trace (log_event (ParseCall text) w) @ evs"
    and n: "\<forall>v. ClassListRemove v \<notin> set evs"
    using swap_never_removes_class by blast
  from e have "trace (fst (swap svg (log_event (ParseCall text) w))) = trace w @ (ParseCall text # evs)"
    by (simp add: log_event_def)
  moreover from n have "\<forall>v. ClassListRemove v \<notin> set (ParseCall text # evs)" by simp
  ultimately have "\<exists>evs. trace (fst (swap svg (log_event (ParseCall text) w))) = trace w @ evs
         \<and> (\<forall>v. ClassListRemove v \<notin> set evs)"
    by blast
  with Pair show ?thesis
    by (cases err) (auto simp: replaceImgWithSvg_wp_def log_event_def)
qed

lemma getSvg_try_wp_never_removes_class:
  "\<exists>evs. trace (getSvg_try_wp pf outcome w) = trace w @ evs \<and> (\<forall>v. ClassListRemove v \<notin> set evs)"
proof (cases outcome)
  case (Rejects e)
  then show ?thesis by (simp add: getSvg_try_wp_def console_error_def log_event_def)
next
  case (Responds ok b)
  show ?thesis
  proof (cases b)
    case (TextFails e)
    with Responds show ?thesis
      by (simp add: getSvg_try_wp_def console_error_def log_event_def)
  next
    case (Text s)
    obtain evs where e: "trace (fst (replaceImgWithSvg_wp pf s (log_event ResponseText w)))
                        = trace (log_event ResponseText w) @ evs"
      and n: "\<forall>v. ClassListRemove v \<notin> set evs"
      using replaceImgWithSvg_wp_never_removes_class by blast
    from e have t: "trace (fst (replaceImgWithSvg_wp pf s (log_event ResponseText w)))
                 = trace w @ (ResponseText # evs)"
      by (simp add: log_event_def)
    show ?thesis
    proof (cases "replaceImgWithSvg_wp pf s (log_event ResponseText w)")
      case (Pair w' err)
      show ?thesis
      proof (cases err)
        case None
        with Pair t n Responds Text show ?thesis
          by (cases ok) (auto simp: getSvg_try_wp_def)
      next
        case (Some e')
        from Pair t have "trace (console_error e' w') = trace w @ (ResponseText # evs @ [ConsoleError e'])"
          by (simp add: console_error_def log_event_def)
        moreover from n have "\<forall>v. ClassListRemove v \<notin> set (ResponseText # evs @ [ConsoleError e'])"
          by simp
        ultimately have "\<exists>evs. trace (console_error e' w') = trace w @ evs
                           \<and> (\<forall>v. ClassListRemove v \<notin> set evs)"
          by blast
        with Pair Some Responds Text show ?thesis
          by (cases ok) (auto simp: getSvg_try_wp_def)
      qed
    qed
  qed
qed

text \<open>
  C1: in both variants the loading class goes onto the element before the request
  is issued. After the attempt has concluded, whatever its outcome, part\_000 has
  removed the class as its last effect (its \<^verbatim>\<open>finally\<close> block), while
  webpack.config.js, which has no such block, never calls
  \<^verbatim>\<open>classList.remove\<close> and leaves the class on the element.
\<close>

theorem loading_class_cleanup:
  assumes "token_error (to_string (loadingClass opts)) = None"
  shows "(\<exists>evs. trace (fst (getSvg pf opts outcome w))
            = trace w @ [ClassListAdd (loadingClass opts), FetchCall (from_data (data_src (elem w)))]
                @ evs @ [ClassListRemove (loadingClass opts)])
         \<and> to_string (loadingClass opts) \<notin> set (classes (elem (fst (getSvg pf opts outcome w))))
         \<and> (\<exists>evs. trace (fst (getSvg_wp pf opts outcome w))
            = trace w @ [ClassListAdd (loadingClass opts), FetchCall (from_data (data_src (elem w)))] @ evs
            \<and> (\<forall>v. ClassListRemove v \<notin> set evs))
         \<and> to_string (loadingClass opts) \<in> set (classes (elem (fst (getSvg_wp pf opts outcome w))))"
proof -
  obtain w1 where s: "getSvg_start opts w = (w1, None)"
    using getSvg_start_ok [OF assms] by blast
  have t1: "trace w1 = trace w @ [ClassListAdd (loadingClass opts), FetchCall (from_data (data_src (elem w)))]"
    using s getSvg_start_ok [OF assms, of w] by auto
  have in1: "to_string (loadingClass opts) \<in> set (classes (elem w1))"
    using getSvg_start_adds_class [OF assms, of w] s by simp
  obtain evs where e: "trace (getSvg_try pf outcome w1) = trace w1 @ evs"
    using getSvg_try_extends_trace by blast
  have a: "\<exists>evs. trace (fst (getSvg pf opts outcome w))
            = trace w @ [ClassListAdd (loadingClass opts), FetchCall (from_data (data_src (elem w)))]
                @ evs @ [ClassListRemove (loadingClass opts)]"
    using s e t1 by (simp add: getSvg_def getSvg_finally_ok [OF assms])
  have b: "to_string (loadingClass opts) \<notin> set (classes (elem (fst (getSvg pf opts outcome w))))"
    using s by (simp add: getSvg_def getSvg_finally_ok [OF assms])
  obtain evs' where e': "trace (getSvg_try_wp pf outcome w1) = trace w1 @ evs'"
    and n': "\<forall>v. ClassListRemove v \<notin> set evs'"
    using getSvg_try_wp_never_removes_class by blast
  have c: "\<exists>evs. trace (fst (getSvg_wp pf opts outcome w))
            = trace w @ [ClassListAdd (loadingClass opts), FetchCall (from_data (data_src (elem w)))] @ evs
            \<and> (\<forall>v. ClassListRemove v \<notin> set evs)"
    using s e' n' t1 by (simp add: getSvg_wp_def)
  have d: "to_string (loadingClass opts) \<in> set (classes (elem (fst (getSvg_wp pf opts outcome w))))"
    using s in1 by (simp add: getSvg_wp_def getSvg_try_wp_keeps_elem)
  from a b c d show ?thesis by blast
qed

theorem loading_class_cleanup_witness:
  "token_error (to_string (loadingClass default_options)) = None
   \<and> ''js-svg-loading'' \<notin> set (classes (elem (fst (getSvg pf_demo default_options (Responds False (Text ''Not Found'')) (page img_plain)))))
   \<and> ''js-svg-loading'' \<in> set (classes (elem (fst (getSvg_wp pf_demo default_options (Responds False (Text ''Not Found'')) (page img_plain)))))
   \<and> classes (elem (fst (getSvg_wp pf_demo default_options (Responds False (Text ''Not Found'')) (page img_plain))))
       = [''js-lazy-inline-svg'', ''js-svg-loading'']
   \<and> trace (fst (getSvg_wp pf_demo default_options (Responds False (Text ''Not Found'')) (page img_plain)))
       = [ClassListAdd (JStr ''js-svg-loading''), FetchCall (JStr ''icon.svg'')]
   \<and> classes (elem (fst (getSvg_wp pf_demo default_options (Rejects NetworkError) (page img_plain))))
       = [''js-lazy-inline-svg'', ''js-svg-loading'']
   \<and> classes (elem (fst (getSvg_wp pf_demo default_options (Responds True (Text svg_text)) (page img_plain))))
       = [''js-lazy-inline-svg'', ''js-svg-loading'']"
proof -
  have h: "token_error (to_string (loadingClass default_options)) = None" by code_simp
  have l: "to_string (loadingClass default_options) = ''js-svg-loading''"
    by (simp add: default_options_def)
  have c: "classes (elem (fst (getSvg_wp pf_demo default_options (Responds False (Text ''Not Found'')) (page img_plain))))
       = [''js-lazy-inline-svg'', ''js-svg-loading'']"
    by code_simp
  have t: "trace (fst (getSvg_wp pf_demo default_options (Responds False (Text ''Not Found'')) (page img_plain)))
       = [ClassListAdd (JStr ''js-svg-loading''), FetchCall (JStr ''icon.svg'')]"
    by code_simp
  have r: "classes (elem (fst (getSvg_wp pf_demo default_options (Rejects NetworkError) (page img_plain))))
       = [''js-lazy-inline-svg'', ''js-svg-loading'']"
    by code_simp
  have k: "classes (elem (fst (getSvg_wp pf_demo default_options (Responds True (Text svg_text)) (page img_plain))))
       = [''js-lazy-inline-svg'', ''js-svg-loading'']"
    by code_simp
  have u: "''js-svg-loading'' \<notin> set (classes (elem (fst (getSvg pf_demo default_options (Responds False (Text ''Not Found'')) (page img_plain)))))"
    using loading_class_cleanup [OF h, of pf_demo "Responds False (Text ''Not Found'')" "page img_plain"]
    unfolding l by blast
  from h u c t r k show ?thesis by simp
qed

text \<open>
  C5: when the response is not ok, \<^verbatim>\<open>getSvg\<close> of either variant records one call
  of \<^verbatim>\<open>fetch\<close> and nothing after it but the removal of the class in part\_000:
  the body is not read, nothing is parsed, nothing is logged, no second request is
  made. The children of the parent, the field \<^verbatim>\<open>inlineSvg\<close> and the element,
  its class list apart, are what they were.
\<close>

theorem non_ok_response_no_transformation:
  "parent_children (fst (getSvg pf opts (Responds False b) w)) = parent_children w
   \<and> inlineSvg (fst (getSvg pf opts (Responds False b) w)) = inlineSvg w
   \<and> (elem (fst (getSvg pf opts (Responds False b) w)))\<lparr>classes := classes (elem w)\<rparr> = elem w
   \<and> trace (fst (getSvg pf opts (Responds False b) w))
       = trace w @ (if token_error (to_string (loadingClass opts)) = None
                    then [ClassListAdd (loadingClass opts), FetchCall (from_data (data_src (elem w))),
                          ClassListRemove (loadingClass opts)]
                    else [ClassListAdd (loadingClass opts)])
   \<and> parent_children (fst (getSvg_wp pf opts (Responds False b) w)) = parent_children w
   \<and> inlineSvg (fst (getSvg_wp pf opts (Responds False b) w)) = inlineSvg w
   \<and> (elem (fst (getSvg_wp pf opts (Responds False b) w)))\<lparr>classes := classes (elem w)\<rparr> = elem w
   \<and> trace (fst (getSvg_wp pf opts (Responds False b) w))
       = trace w @ (if token_error (to_string (loadingClass opts)) = None
                    then [ClassListAdd (loadingClass opts), FetchCall (from_data (data_src (elem w)))]
                    else [ClassListAdd (loadingClass opts)])"
proof (cases "token_error (to_string (loadingClass opts))")
  case None
  show ?thesis
    by (simp add: getSvg_def getSvg_wp_def getSvg_start_ok [OF None] getSvg_finally_ok [OF None]
        getSvg_try_non_ok getSvg_try_wp_non_ok None)
next
  case (Some e)
  show ?thesis
    by (simp add: getSvg_def getSvg_wp_def getSvg_start_bad [OF Some] Some)
qed

theorem non_ok_response_no_transformation_witness:
  "trace (fst (getSvg pf_demo default_options (Responds False (Text ''Not Found'')) (page img_plain)))
     = [ClassListAdd (JStr ''js-svg-loading''), FetchCall (JStr ''icon.svg''),
        ClassListRemove (JStr ''js-svg-loading'')]
   \<and> parent_children (fst (getSvg pf_demo default_options (Responds False (Text ''Not Found'')) (page img_plain)))
       = [Other 0, Placeholder, Other 1]
   \<and> trace (fst (getSvg_wp pf_demo default_options (Responds False (Text ''Not Found'')) (page img_plain)))
       = [ClassListAdd (JStr ''js-svg-loading''), FetchCall (JStr ''icon.svg'')]
   \<and> parent_children (fst (getSvg_wp pf_demo default_options (Responds False (Text ''Not Found'')) (page img_plain)))
       = [Other 0, Placeholder, Other 1]"
proof -
  have h: "token_error (to_string (loadingClass default_options)) = None" by code_simp
  have l: "loadingClass default_options = JStr ''js-svg-loading''"
    by (simp add: default_options_def)
  have s: "data_src (elem (page img_plain)) = Some ''icon.svg''"
    by (simp add: page_def img_plain_def)
  have t: "trace (page img_plain) = []" by (simp add: page_def)
  have p: "parent_children (page img_plain) = [Other 0, Placeholder, Other 1]"
    by (simp add: page_def)
  show ?thesis
    using non_ok_response_no_transformation
      [of pf_demo default_options "Text ''Not Found''" "page img_plain"] h l s t p
    by simp
qed

text \<open>
  C10, as the code has it: \<^verbatim>\<open>getSvg\<close> hands \<^verbatim>\<open>dataset.src\<close> to \<^verbatim>\<open>fetch\<close>
  unchecked. When \<^verbatim>\<open>classList.add\<close> accepts the loading class, the class is on
  the element and the request is the next effect, with the string of
  \<^verbatim>\<open>data-src\<close> when the attribute is present and with \<^verbatim>\<open>undefined\<close> when it is
  absent; the whole attempt of either variant starts with these two effects,
  whatever the network answers. When \<^verbatim>\<open>classList.add\<close> rejects the class (an
  empty token, or one with white space) that call is the only effect: the class
  list is unchanged, no request is made and the promise rejects, with or without
  \<^verbatim>\<open>data-src\<close>.
\<close>

theorem src_passed_to_fetch_unchecked:
  "trace (fst (getSvg_start opts w))
     = trace w @ (if token_error (to_string (loadingClass opts)) = None
                  then [ClassListAdd (loadingClass opts),
                        FetchCall (case data_src (elem w) of None \<Rightarrow> JUndefined | Some url \<Rightarrow> JStr url)]
                  else [ClassListAdd (loadingClass opts)])
   \<and> snd (getSvg_start opts w) = token_error (to_string (loadingClass opts))
   \<and> classes (elem (fst (getSvg_start opts w)))
       = (if token_error (to_string (loadingClass opts)) = None
             \<and> to_string (loadingClass opts) \<notin> set (classes (elem w))
          then classes (elem w) @ [to_string (loadingClass opts)]
          else classes (elem w))
   \<and> (\<exists>evs. trace (fst (getSvg pf opts outcome w))
         = trace w @ (if token_error (to_string (loadingClass opts)) = None
                      then [ClassListAdd (loadingClass opts),
                            FetchCall (case data_src (elem w) of None \<Rightarrow> JUndefined | Some url \<Rightarrow> JStr url)]
                           @ evs
                      else [ClassListAdd (loadingClass opts)]))
   \<and> (\<exists>evs. trace (fst (getSvg_wp pf opts outcome w))
         = trace w @ (if token_error (to_string (loadingClass opts)) = None
                      then [ClassListAdd (loadingClass opts),
                            FetchCall (case data_src (elem w) of None \<Rightarrow> JUndefined | Some url \<Rightarrow> JStr url)]
                           @ evs
                      else [ClassListAdd (loadingClass opts)]))"
proof -
  let ?url = "case data_src (elem w) of None \<Rightarrow> JUndefined | Some url \<Rightarrow> JStr url"
  have u: "from_data (data_src (elem w)) = ?url"
    by (cases "data_src (elem w)") simp_all
  show ?thesis
  proof (cases "token_error (to_string (loadingClass opts))")
    case (Some e)
    show ?thesis
      by (simp add: getSvg_def getSvg_wp_def getSvg_start_bad [OF Some] Some)
  next
    case None
    obtain w1 where s: "getSvg_start opts w = (w1, None)"
      using getSvg_start_ok [OF None] by blast
    have t: "trace w1 = trace w @ [ClassListAdd (loadingClass opts), FetchCall ?url]"
      using s getSvg_start_ok [OF None, of w] u by auto
    have c: "classes (elem w1)
               = (if to_string (loadingClass opts) \<notin> set (classes (elem w))
                  then classes (elem w) @ [to_string (loadingClass opts)] else classes (elem w))"
      using s getSvg_start_ok [OF None, of w] by auto
    obtain evs where e: "trace (getSvg_try pf outcome w1) = trace w1 @ evs"
      using getSvg_try_extends_trace by blast
    have a: "\<exists>evs. trace (fst (getSvg pf opts outcome w))
               = trace w @ [ClassListAdd (loadingClass opts), FetchCall ?url] @ evs"
      using s e t by (simp add: getSvg_def getSvg_finally_ok [OF None])
    obtain evs' where e': "trace (getSvg_try_wp pf outcome w1) = trace w1 @ evs'"
      using getSvg_try_wp_extends_trace by blast
    have b: "\<exists>evs. trace (fst (getSvg_wp pf opts outcome w))
               = trace w @ [ClassListAdd (loadingClass opts), FetchCall ?url] @ evs"
      using s e' t by (simp add: getSvg_wp_def)
    from s t c a b None show ?thesis by simp
  qed
qed

theorem src_passed_to_fetch_unchecked_witness:
  "trace (fst (getSvg_start default_options (page img_no_src)))
     = [ClassListAdd (JStr ''js-svg-loading''), FetchCall JUndefined]
   \<and> classes (elem (fst (getSvg_start default_options (page img_no_src))))
       = [''js-lazy-inline-svg'', ''js-svg-loading'']
   \<and> snd (getSvg_start default_options (page img_no_src)) = None
   \<and> trace (fst (getSvg_start default_options (page img_plain)))
     = [ClassListAdd (JStr ''js-svg-loading''), FetchCall (JStr ''icon.svg'')]
   \<and> trace (fst (getSvg_start \<lparr>loadingClass = JStr []\<rparr> (page img_no_src)))
     = [ClassListAdd (JStr [])]
   \<and> classes (elem (fst (getSvg_start \<lparr>loadingClass = JStr []\<rparr> (page img_no_src))))
       = [''js-lazy-inline-svg'']"
proof -
  have h: "token_error (to_string (loadingClass default_options)) = None" by code_simp
  have l: "loadingClass default_options = JStr ''js-svg-loading''"
    by (simp add: default_options_def)
  have k: "token_error ''js-svg-loading'' = None" using h l by simp
  have b: "token_error [] = Some SyntaxError" by (simp add: token_error_def)
  have n: "data_src (elem (page img_no_src)) = None" "trace (page img_no_src) = []"
    "classes (elem (page img_no_src)) = [''js-lazy-inline-svg'']"
    by (simp_all add: page_def img_no_src_def)
  have p: "data_src (elem (page img_plain)) = Some ''icon.svg''" "trace (page img_plain) = []"
    by (simp_all add: page_def img_plain_def)
  show ?thesis
    using src_passed_to_fetch_unchecked [of default_options "page img_no_src" pf_demo "Rejects NetworkError"]
      src_passed_to_fetch_unchecked [of default_options "page img_plain" pf_demo "Rejects NetworkError"]
      src_passed_to_fetch_unchecked [of "\<lparr>loadingClass = JStr []\<rparr>" "page img_no_src" pf_demo "Rejects NetworkError"]
      l k b n p
    by simp
qed

text \<open>
  C10 as stated fails for a loading class that \<^verbatim>\<open>classList.add\<close> rejects: with
  \<^verbatim>\<open>loadingClass: ''\<close> and no \<^verbatim>\<open>data-src\<close> the call throws
  \<^verbatim>\<open>SyntaxError\<close> outside the \<^verbatim>\<open>try\<close>, so no class is added and
  \<^verbatim>\<open>fetch\<close> is never called, in either variant.
\<close>

theorem rejected_loading_class_counterexample:
  "data_src (elem (page img_no_src)) = None
   \<and> getSvg_start \<lparr>loadingClass = JStr []\<rparr> (page img_no_src)
       = ((page img_no_src)\<lparr>trace := [ClassListAdd (JStr [])]\<rparr>, Some SyntaxError)
   \<and> getSvg pf_demo \<lparr>loadingClass = JStr []\<rparr> (Responds True (Text svg_text)) (page img_no_src)
       = ((page img_no_src)\<lparr>trace := [ClassListAdd (JStr [])]\<rparr>, Some SyntaxError)
   \<and> getSvg_wp pf_demo \<lparr>loadingClass = JStr []\<rparr> (Responds True (Text svg_text)) (page img_no_src)
       = ((page img_no_src)\<lparr>trace := [ClassListAdd (JStr [])]\<rparr>, Some SyntaxError)
   \<and> classes (elem ((page img_no_src)\<lparr>trace := [ClassListAdd (JStr [])]\<rparr>)) = [''js-lazy-inline-svg'']"
proof -
  have b: "token_error (to_string (loadingClass \<lparr>loadingClass = JStr []\<rparr>)) = Some SyntaxError"
    by (simp add: token_error_def)
  have t: "trace (page img_no_src) = []" by (simp add: page_def)
  have 1: "data_src (elem (page img_no_src)) = None" by (simp add: page_def img_no_src_def)
  have 2: "getSvg_start \<lparr>loadingClass = JStr []\<rparr> (page img_no_src)
       = ((page img_no_src)\<lparr>trace := [ClassListAdd (JStr [])]\<rparr>, Some SyntaxError)"
    using getSvg_start_bad [OF b, of "page img_no_src"] t by simp
  have 3: "getSvg pf_demo \<lparr>loadingClass = JStr []\<rparr> (Responds True (Text svg_text)) (page img_no_src)
       = ((page img_no_src)\<lparr>trace := [ClassListAdd (JStr [])]\<rparr>, Some SyntaxError)"
    using 2 by (simp add: getSvg_def)
  have 4: "getSvg_wp pf_demo \<lparr>loadingClass = JStr []\<rparr> (Responds True (Text svg_text)) (page img_no_src)
       = ((page img_no_src)\<lparr>trace := [ClassListAdd (JStr [])]\<rparr>, Some SyntaxError)"
    using 2 by (simp add: getSvg_wp_def)
  have 5: "classes (elem ((page img_no_src)\<lparr>trace := [ClassListAdd (JStr [])]\<rparr>)) = [''js-lazy-inline-svg'']"
    by (simp add: page_def img_no_src_def)
  from 1 2 3 4 5 show ?thesis by (simp only: simp_thms)
qed

section \<open>Options\<close>

lemma token_undefined_ok: "token_error ''undefined'' = None"
  by code_simp

text \<open>
  C8: an options object given to the constructor is taken as it is, in both
  variants and for every instance a class name expands to; nothing of the
  defaults is merged into it. The first effect of \<^verbatim>\<open>getSvg\<close> is
  \<^verbatim>\<open>classList.add\<close> with the \<^verbatim>\<open>loadingClass\<close> of that object, and when the key is
  missing the call is made with \<^verbatim>\<open>undefined\<close>: the class list gains the token
  \<^verbatim>\<open>undefined\<close>, not \<^verbatim>\<open>js-svg-loading\<close>, and the request goes out.
\<close>

theorem provided_options_replace_defaults:
  "list_all (\<lambda>i. inst_options i = opts) (constructor querySelectorAll element (Some opts))
   \<and> wp_options (constructor_wp querySelectorAll selector (Some opts)) = opts
   \<and> (\<exists>evs. trace (fst (getSvg_start opts w)) = trace w @ ClassListAdd (loadingClass opts) # evs)
   \<and> (loadingClass opts = JUndefined \<longrightarrow>
         snd (getSvg_start opts w) = None
         \<and> trace (fst (getSvg_start opts w))
             = trace w @ [ClassListAdd JUndefined, FetchCall (from_data (data_src (elem w)))]
         \<and> classes (elem (fst (getSvg_start opts w)))
             = (if ''undefined'' \<in> set (classes (elem w)) then classes (elem w)
                else classes (elem w) @ [''undefined'']))"
proof -
  have 1: "list_all (\<lambda>i. inst_options i = opts) (constructor querySelectorAll element (Some opts))"
    by (cases "element_or_default element")
      (simp_all add: constructor_def constructor_element_def list_all_iff)
  have 2: "wp_options (constructor_wp querySelectorAll selector (Some opts)) = opts"
    by (simp add: constructor_wp_def Let_def)
  have 3: "\<exists>evs. trace (fst (getSvg_start opts w)) = trace w @ ClassListAdd (loadingClass opts) # evs"
    by (cases "token_error (to_string (loadingClass opts))")
      (simp_all add: getSvg_start_ok getSvg_start_bad)
  have 4: "snd (getSvg_start opts w) = None
         \<and> trace (fst (getSvg_start opts w))
             = trace w @ [ClassListAdd JUndefined, FetchCall (from_data (data_src (elem w)))]
         \<and> classes (elem (fst (getSvg_start opts w)))
             = (if ''undefined'' \<in> set (classes (elem w)) then classes (elem w)
                else classes (elem w) @ [''undefined''])"
    if u: "loadingClass opts = JUndefined"
  proof -
    have "token_error (to_string (loadingClass opts)) = None"
      using u token_undefined_ok by simp
    from getSvg_start_ok [OF this, of w] u show ?thesis by simp
  qed
  from 1 2 3 4 show ?thesis by blast
qed

theorem provided_options_replace_defaults_witness:
  "constructor (\<lambda>s. [7, 9]) (Some (Selector ''icon'')) (Some \<lparr>loadingClass = JUndefined\<rparr>)
     = [\<lparr>inst_element = 7, inst_options = \<lparr>loadingClass = JUndefined\<rparr>\<rparr>,
        \<lparr>inst_element = 9, inst_options = \<lparr>loadingClass = JUndefined\<rparr>\<rparr>]
   \<and> list_all (\<lambda>i. inst_options i = \<lparr>loadingClass = JUndefined\<rparr>)
        (constructor (\<lambda>s. [7, 9]) (Some (Selector ''icon'')) (Some \<lparr>loadingClass = JUndefined\<rparr>))
   \<and> classes (elem (fst (getSvg_start \<lparr>loadingClass = JUndefined\<rparr> (page img_plain))))
       = [''js-lazy-inline-svg'', ''undefined'']
   \<and> trace (fst (getSvg_start \<lparr>loadingClass = JUndefined\<rparr> (page img_plain)))
       = [ClassListAdd JUndefined, FetchCall (JStr ''icon.svg'')]
   \<and> inst_options (hd (constructor (\<lambda>s. [7, 9]) (Some (Element 7)) None)) = \<lparr>loadingClass = JStr ''js-svg-loading''\<rparr>"
proof -
  have a: "constructor (\<lambda>s. [7, 9]) (Some (Selector ''icon'')) (Some \<lparr>loadingClass = JUndefined\<rparr>)
     = [\<lparr>inst_element = 7, inst_options = \<lparr>loadingClass = JUndefined\<rparr>\<rparr>,
        \<lparr>inst_element = 9, inst_options = \<lparr>loadingClass = JUndefined\<rparr>\<rparr>]"
    by (simp add: constructor_def constructor_element_def)
  have b: "inst_options (hd (constructor (\<lambda>s. [7, 9]) (Some (Element 7)) None)) = \<lparr>loadingClass = JStr ''js-svg-loading''\<rparr>"
    by (simp add: constructor_def constructor_element_def default_options_def)
  have c: "classes (elem (page img_plain)) = [''js-lazy-inline-svg'']"
      "trace (page img_plain) = []" "data_src (elem (page img_plain)) = Some ''icon.svg''"
    by (simp_all add: page_def img_plain_def)
  have d: "loadingClass \<lparr>loadingClass = JUndefined\<rparr> = JUndefined" by simp
  show ?thesis
    using provided_options_replace_defaults
      [of "\<lparr>loadingClass = JUndefined\<rparr>" "\<lambda>s. [7, 9]" "Some (Selector ''icon'')" "None" "page img_plain"]
      a b c d
    by simp
qed

section \<open>A text without an SVG root\<close>

lemma sanitize_on_null:
  "sanitize pf el None =
     (None, if truthy (data_removeAttrs el) \<or> truthy (data_removeScripts el)
               \<or> truthy (data_addAttrs el) \<or> truthy (data_setSvgSize el)
            then Some TypeError else None)"
  by (simp add: sanitize_def and_then_def removeAttrs_on_null removeScripts_on_null
      addAttrs_on_null setSvgSize_on_null)

lemma replaceImgWithSvg_on_null:
  assumes "inlineSvg w = None"
  shows "replaceImgWithSvg pf w =
           (w, if truthy (data_removeAttrs (elem w)) \<or> truthy (data_removeScripts (elem w))
                  \<or> truthy (data_addAttrs (elem w)) \<or> truthy (data_setSvgSize (elem w))
                  \<or> has_parent w
               then Some TypeError else None)"
proof -
  have "w\<lparr>inlineSvg := None\<rparr> = w" using assms by simp
  then show ?thesis
    using assms by (simp add: replaceImgWithSvg_def sanitize_on_null swap_def has_parent_def)
qed

lemma replaceImgWithSvg_wp_on_null:
  assumes "parseSvgStringToHtml pf text = None"
  shows "replaceImgWithSvg_wp pf text w =
           (log_event (ParseCall text) w,
            if truthy (data_removeAttrs (elem w)) \<or> truthy (data_removeScripts (elem w))
                  \<or> truthy (data_addAttrs (elem w)) \<or> truthy (data_setSvgSize (elem w))
                  \<or> has_parent w
               then Some TypeError else None)"
  using assms
  by (simp add: replaceImgWithSvg_wp_def sanitize_on_null swap_def has_parent_def log_event_def)

text \<open>
  C7, as the code has it: when the fetched text yields no \<^verbatim>\<open>svg\<close> element,
  nothing is substituted and nothing leaves \<^verbatim>\<open>getSvg\<close> (for a loading class
  that \<^verbatim>\<open>classList.add\<close> accepts), but the run is not silent: a step whose data
  attribute is set, and the swap itself when the placeholder has a parent, throws
  \<^verbatim>\<open>TypeError\<close> on the missing node, and \<^verbatim>\<open>getSvg\<close> catches it and logs it once
  with \<^verbatim>\<open>console.error\<close>. Only with no step enabled and no parent does the
  attempt end without an error.
\<close>

theorem no_svg_root_no_swap_but_logged:
  assumes "parseSvgStringToHtml pf text = None"
    and "token_error (to_string (loadingClass opts)) = None"
  shows "parent_children (fst (getSvg pf opts (Responds True (Text text)) w)) = parent_children w
         \<and> snd (getSvg pf opts (Responds True (Text text)) w) = None
         \<and> trace (fst (getSvg pf opts (Responds True (Text text)) w))
             = trace w @ [ClassListAdd (loadingClass opts), FetchCall (from_data (data_src (elem w))),
                          ResponseText, ParseCall text]
               @ (if truthy (data_removeAttrs (elem w)) \<or> truthy (data_removeScripts (elem w))
                     \<or> truthy (data_addAttrs (elem w)) \<or> truthy (data_setSvgSize (elem w))
                     \<or> has_parent w
                  then [ConsoleError TypeError] else [])
               @ [ClassListRemove (loadingClass opts)]
         \<and> parent_children (fst (getSvg_wp pf opts (Responds True (Text text)) w)) = parent_children w
         \<and> snd (getSvg_wp pf opts (Responds True (Text text)) w) = None
         \<and> trace (fst (getSvg_wp pf opts (Responds True (Text text)) w))
             = trace w @ [ClassListAdd (loadingClass opts), FetchCall (from_data (data_src (elem w))),
                          ResponseText, ParseCall text]
               @ (if truthy (data_removeAttrs (elem w)) \<or> truthy (data_removeScripts (elem w))
                     \<or> truthy (data_addAttrs (elem w)) \<or> truthy (data_setSvgSize (elem w))
                     \<or> has_parent w
                  then [ConsoleError TypeError] else [])"
proof -
  obtain w1 where s: "getSvg_start opts w = (w1, None)"
    and w1: "w1 = w\<lparr>elem := (if List.member (classes (elem w)) (to_string (loadingClass opts)) then elem w
                         else (elem w)\<lparr>classes := classes (elem w) @ [to_string (loadingClass opts)]\<rparr>),
              trace := trace w @ [ClassListAdd (loadingClass opts), FetchCall (from_data (data_src (elem w)))]\<rparr>"
    using getSvg_start_ok [OF assms(2)] by blast
  let ?w2 = "(log_event (ParseCall text) (log_event ResponseText w1))\<lparr>inlineSvg := None\<rparr>"
  have n: "inlineSvg ?w2 = None" by simp
  have a: "getSvg_try pf (Responds True (Text text)) w1 =
             (if truthy (data_removeAttrs (elem w)) \<or> truthy (data_removeScripts (elem w))
                  \<or> truthy (data_addAttrs (elem w)) \<or> truthy (data_setSvgSize (elem w))
                  \<or> has_parent w
              then console_error TypeError ?w2 else ?w2)"
    using assms(1) replaceImgWithSvg_on_null [OF n, of pf]
    by (simp add: getSvg_try_def w1 log_event_def has_parent_def)
  have b: "getSvg_try_wp pf (Responds True (Text text)) w1 =
             (if truthy (data_removeAttrs (elem w)) \<or> truthy (data_removeScripts (elem w))
                  \<or> truthy (data_addAttrs (elem w)) \<or> truthy (data_setSvgSize (elem w))
                  \<or> has_parent w
              then console_error TypeError (log_event (ParseCall text) (log_event ResponseText w1))
              else log_event (ParseCall text) (log_event ResponseText w1))"
    using replaceImgWithSvg_wp_on_null [OF assms(1), of "log_event ResponseText w1"]
    by (simp add: getSvg_try_wp_def w1 log_event_def has_parent_def)
  have ga: "getSvg pf opts (Responds True (Text text)) w
              = getSvg_finally opts (getSvg_try pf (Responds True (Text text)) w1)"
    using s by (simp add: getSvg_def)
  have gb: "getSvg_wp pf opts (Responds True (Text text)) w
              = (getSvg_try_wp pf (Responds True (Text text)) w1, None)"
    using s by (simp add: getSvg_wp_def)
  show ?thesis
    unfolding ga gb a b
    by (simp add: getSvg_finally_ok [OF assms(2)] console_error_def log_event_def w1)
qed

theorem no_svg_root_no_swap_but_logged_witness:
  "parseSvgStringToHtml pf_demo ''<p>not an svg</p>'' = None
   \<and> token_error (to_string (loadingClass default_options)) = None
   \<and> parent_children (fst (getSvg pf_demo default_options (Responds True (Text ''<p>not an svg</p>'')) (page img_plain)))
       = [Other 0, Placeholder, Other 1]
   \<and> trace (fst (getSvg pf_demo default_options (Responds True (Text ''<p>not an svg</p>'')) (page img_plain)))
       = [ClassListAdd (JStr ''js-svg-loading''), FetchCall (JStr ''icon.svg''), ResponseText,
          ParseCall ''<p>not an svg</p>'', ConsoleError TypeError, ClassListRemove (JStr ''js-svg-loading'')]
   \<and> trace (fst (getSvg_wp pf_demo default_options (Responds True (Text ''<p>not an svg</p>'')) (detached img_plain)))
       = [ClassListAdd (JStr ''js-svg-loading''), FetchCall (JStr ''icon.svg''), ResponseText,
          ParseCall ''<p>not an svg</p>'']"
proof -
  have h1: "parseSvgStringToHtml pf_demo ''<p>not an svg</p>'' = None" by code_simp
  have h2: "token_error (to_string (loadingClass default_options)) = None" by code_simp
  have l: "loadingClass default_options = JStr ''js-svg-loading''"
    by (simp add: default_options_def)
  have f: "data_src img_plain = Some ''icon.svg''" "\<not> truthy (data_removeAttrs img_plain)"
    "\<not> truthy (data_removeScripts img_plain)" "\<not> truthy (data_addAttrs img_plain)"
    "\<not> truthy (data_setSvgSize img_plain)"
    by (simp_all add: img_plain_def)
  have p: "elem (page img_plain) = img_plain" "trace (page img_plain) = []"
    "parent_children (page img_plain) = [Other 0, Placeholder, Other 1]" "has_parent (page img_plain)"
    by (simp_all add: page_def has_parent_def)
  have d: "elem (detached img_plain) = img_plain" "trace (detached img_plain) = []"
    "\<not> has_parent (detached img_plain)"
    by (simp_all add: detached_def has_parent_def)
  show ?thesis
    using no_svg_root_no_swap_but_logged [OF h1 h2, of "page img_plain"]
      no_svg_root_no_swap_but_logged [OF h1 h2, of "detached img_plain"] h1 h2 l f p d
    by simp
qed

text \<open>
  C7 as stated fails: for a text without an \<^verbatim>\<open>svg\<close> element and a placeholder that
  has a parent, the swap throws \<^verbatim>\<open>TypeError\<close> in both variants, an enabled step
  throws it as well, and \<^verbatim>\<open>getSvg\<close> writes the error to the console.
\<close>

theorem no_svg_root_counterexample:
  "parseSvgStringToHtml pf_demo ''<p>not an svg</p>'' = None
   \<and> snd (replaceImgWithSvg_wp pf_demo ''<p>not an svg</p>'' (page img_plain)) = Some TypeError
   \<and> snd (replaceImgWithSvg pf_demo
            ((page img_plain)\<lparr>inlineSvg := parseSvgStringToHtml pf_demo ''<p>not an svg</p>''\<rparr>))
       = Some TypeError
   \<and> snd (removeScripts img_flags (parseSvgStringToHtml pf_demo ''<p>not an svg</p>'')) = Some TypeError
   \<and> trace (fst (getSvg pf_demo default_options (Responds True (Text ''<p>not an svg</p>'')) (page img_plain)))
       = [ClassListAdd (JStr ''js-svg-loading''), FetchCall (JStr ''icon.svg''), ResponseText,
          ParseCall ''<p>not an svg</p>'', ConsoleError TypeError, ClassListRemove (JStr ''js-svg-loading'')]"
proof -
  have 1: "parseSvgStringToHtml pf_demo ''<p>not an svg</p>'' = None" by code_simp
  have 2: "snd (replaceImgWithSvg_wp pf_demo ''<p>not an svg</p>'' (page img_plain)) = Some TypeError"
    by code_simp
  have 3: "snd (replaceImgWithSvg pf_demo
            ((page img_plain)\<lparr>inlineSvg := parseSvgStringToHtml pf_demo ''<p>not an svg</p>''\<rparr>))
       = Some TypeError"
    by code_simp
  have 4: "snd (removeScripts img_flags (parseSvgStringToHtml pf_demo ''<p>not an svg</p>'')) = Some TypeError"
    by code_simp
  have 5: "trace (fst (getSvg pf_demo default_options (Responds True (Text ''<p>not an svg</p>'')) (page img_plain)))
       = [ClassListAdd (JStr ''js-svg-loading''), FetchCall (JStr ''icon.svg''), ResponseText,
          ParseCall ''<p>not an svg</p>'', ConsoleError TypeError, ClassListRemove (JStr ''js-svg-loading'')]"
    by code_simp
  from 1 2 3 4 5 show ?thesis by (simp only: simp_thms)
qed

section \<open>Deliveries of the visibility watcher\<close>

lemma getSvg_start_fetch_count:
  "length (filter is_fetch (trace (fst (getSvg_start opts w)))) \<le> length (filter is_fetch (trace w)) + 1"
  by (cases "token_error (to_string (loadingClass opts))")
    (simp_all add: getSvg_start_ok getSvg_start_bad)

lemma callback_wp_Nil: "callback_wp opts [] st = st"
  by (simp add: callback_wp_def)

lemma callback_wp_Cons:
  "callback_wp opts (x # xs) st =
     callback_wp opts xs
       (if isIntersecting x then unobserve (target x) (call_getSvg opts (target x) st) else st)"
  by (simp add: callback_wp_def)

lemma callback_wp_observed_subset:
  "set (observed (callback_wp opts entries st)) \<subseteq> set (observed st)"
proof (induction entries arbitrary: st)
  case Nil
  then show ?case by (simp add: callback_wp_Nil)
next
  case (Cons x xs)
  have "set (observed (if isIntersecting x then unobserve (target x) (call_getSvg opts (target x) st) else st))
          \<subseteq> set (observed st)"
    by (auto simp: unobserve_def call_getSvg_def)
  with Cons.IH show ?case
    unfolding callback_wp_Cons by blast
qed

lemma callback_wp_fetches:
  "fetches el (callback_wp opts entries st) \<le> fetches el st + intersecting_reports el entries"
proof (induction entries arbitrary: st)
  case Nil
  then show ?case by (simp add: callback_wp_Nil)
next
  case (Cons x xs)
  let ?st = "if isIntersecting x then unobserve (target x) (call_getSvg opts (target x) st) else st"
  have "fetches el ?st \<le> fetches el st + (if isIntersecting x \<and> target x = el then 1 else 0)"
    using getSvg_start_fetch_count [of opts "worlds st el"]
    by (auto simp: fetches_def unobserve_def call_getSvg_def)
  moreover have "fetches el (callback_wp opts xs ?st) \<le> fetches el ?st + intersecting_reports el xs"
    by (rule Cons.IH)
  moreover have "intersecting_reports el (x # xs)
          = (if isIntersecting x \<and> target x = el then 1 else 0) + intersecting_reports el xs"
    by (simp add: intersecting_reports_def)
  ultimately show ?case
    unfolding callback_wp_Cons by linarith
qed

lemma callback_wp_untouched:
  "intersecting_reports el entries = 0 \<Longrightarrow> worlds (callback_wp opts entries st) el = worlds st el"
proof (induction entries arbitrary: st)
  case Nil
  then show ?case by (simp add: callback_wp_Nil)
next
  case (Cons x xs)
  let ?st = "if isIntersecting x then unobserve (target x) (call_getSvg opts (target x) st) else st"
  from Cons.prems have a: "\<not> (isIntersecting x \<and> target x = el)" and b: "intersecting_reports el xs = 0"
    by (auto simp: intersecting_reports_def split: if_splits)
  have "worlds ?st el = worlds st el"
    using a by (auto simp: unobserve_def call_getSvg_def)
  with Cons.IH [OF b, of ?st] show ?case
    unfolding callback_wp_Cons by simp
qed

lemma callback_wp_unobserves:
  "0 < intersecting_reports el entries \<Longrightarrow> el \<notin> set (observed (callback_wp opts entries st))"
proof (induction entries arbitrary: st)
  case Nil
  then show ?case by (simp add: intersecting_reports_def)
next
  case (Cons x xs)
  let ?st = "if isIntersecting x then unobserve (target x) (call_getSvg opts (target x) st) else st"
  show ?case
  proof (cases "isIntersecting x \<and> target x = el")
    case True
    then have "el \<notin> set (observed ?st)"
      by (simp add: unobserve_def call_getSvg_def)
    then show ?thesis
      unfolding callback_wp_Cons using callback_wp_observed_subset [of opts xs ?st] by blast
  next
    case False
    with Cons.prems have "0 < intersecting_reports el xs"
      by (auto simp: intersecting_reports_def split: if_splits)
    from Cons.IH [OF this, of ?st] show ?thesis
      unfolding callback_wp_Cons .
  qed
qed

lemma delivered_reports:
  "intersecting_reports el (filter (\<lambda>x. List.member obs (target x)) batch)
     = (if el \<in> set obs then intersecting_reports el batch else 0)"
proof -
  have "filter (\<lambda>x. isIntersecting x \<and> target x = el) (filter (\<lambda>x. target x \<in> set obs) batch)
          = (if el \<in> set obs then filter (\<lambda>x. isIntersecting x \<and> target x = el) batch else [])"
    by (induction batch) auto
  then show ?thesis
    by (simp add: intersecting_reports_def)
qed

lemma notify_wp_fetches:
  "fetches el (notify (callback_wp opts) batch st)
     \<le> fetches el st + (if el \<in> set (observed st) then intersecting_reports el batch else 0)"
  using callback_wp_fetches [of el opts "filter (\<lambda>x. List.member (observed st) (target x)) batch" st]
  by (simp only: notify_def delivered_reports)

lemma notify_wp_untouched:
  assumes "el \<notin> set (observed st) \<or> intersecting_reports el batch = 0"
  shows "worlds (notify (callback_wp opts) batch st) el = worlds st el"
proof -
  have "intersecting_reports el (filter (\<lambda>x. List.member (observed st) (target x)) batch) = 0"
    using assms by (auto simp only: delivered_reports split: if_splits)
  then show ?thesis
    unfolding notify_def by (rule callback_wp_untouched)
qed

lemma notify_wp_observed_subset:
  "set (observed (notify (callback_wp opts) batch st)) \<subseteq> set (observed st)"
  unfolding notify_def by (rule callback_wp_observed_subset)

lemma notify_wp_unobserves:
  assumes "el \<in> set (observed st)" and "0 < intersecting_reports el batch"
  shows "el \<notin> set (observed (notify (callback_wp opts) batch st))"
proof -
  have "0 < intersecting_reports el (filter (\<lambda>x. List.member (observed st) (target x)) batch)"
    using assms by (simp only: delivered_reports if_True)
  then show ?thesis
    unfolding notify_def by (rule callback_wp_unobserves)
qed

lemma run_Nil: "run cb [] st = st"
  by (simp add: run_def)

lemma run_Cons: "run cb (b # bs) st = run cb bs (notify cb b st)"
  by (simp add: run_def)

lemma run_wp_unobserved_untouched:
  "el \<notin> set (observed st) \<Longrightarrow>
   worlds (run (callback_wp opts) batches st) el = worlds st el
   \<and> el \<notin> set (observed (run (callback_wp opts) batches st))"
proof (induction batches arbitrary: st)
  case Nil
  then show ?case by (simp add: run_Nil)
next
  case (Cons b bs)
  have 1: "el \<notin> set (observed (notify (callback_wp opts) b st))"
    using Cons.prems notify_wp_observed_subset [of opts b st] by blast
  have 2: "worlds (notify (callback_wp opts) b st) el = worlds st el"
    using Cons.prems by (intro notify_wp_untouched) simp
  from Cons.IH [OF 1] 2 show ?case
    unfolding run_Cons by simp
qed

lemma run_wp_at_most_once:
  "list_all (\<lambda>b. intersecting_reports el b \<le> 1) batches \<Longrightarrow>
   fetches el (run (callback_wp opts) batches st)
     \<le> fetches el st + (if el \<in> set (observed st) then 1 else 0)"
proof (induction batches arbitrary: st)
  case Nil
  then show ?case by (simp add: run_Nil)
next
  case (Cons b bs)
  let ?st = "notify (callback_wp opts) b st"
  from Cons.prems have b1: "intersecting_reports el b \<le> 1"
    and rest: "list_all (\<lambda>b. intersecting_reports el b \<le> 1) bs"
    by simp_all
  have ih: "fetches el (run (callback_wp opts) bs ?st)
              \<le> fetches el ?st + (if el \<in> set (observed ?st) then 1 else 0)"
    by (rule Cons.IH [OF rest])
  show ?case
  proof (cases "el \<in> set (observed st) \<and> 0 < intersecting_reports el b")
    case True
    then have "el \<notin> set (observed ?st)"
      using notify_wp_unobserves by blast
    moreover have "fetches el ?st \<le> fetches el st + 1"
      using notify_wp_fetches [of el opts b st] True b1 by simp
    ultimately show ?thesis
      using ih True unfolding run_Cons by simp
  next
    case False
    then have "worlds ?st el = worlds st el"
      by (intro notify_wp_untouched) auto
    then have same: "fetches el ?st = fetches el st"
      by (simp add: fetches_def)
    have "el \<in> set (observed ?st) \<Longrightarrow> el \<in> set (observed st)"
      using notify_wp_observed_subset [of opts b st] by blast
    then show ?thesis
      using ih same unfolding run_Cons by (auto split: if_splits)
  qed
qed

lemma callback_as_wp:
  assumes "list_all (\<lambda>x. target x = inst_element self) entries"
  shows "callback self entries st = callback_wp (inst_options self) entries st"
proof -
  have "fold (\<lambda>entry st. if isIntersecting entry
                then unobserve (inst_element self) (call_getSvg (inst_options self) (inst_element self) st)
                else st) entries st
      = fold (\<lambda>entry st. if isIntersecting entry
                then unobserve (target entry) (call_getSvg (inst_options self) (target entry) st)
                else st) entries st"
    using assms by (intro fold_cong) (auto simp: list_all_iff)
  then show ?thesis
    by (simp add: callback_def callback_wp_def)
qed

lemma notify_as_wp:
  assumes "set (observed st) \<subseteq> {inst_element self}"
  shows "notify (callback self) batch st = notify (callback_wp (inst_options self)) batch st"
proof -
  have "list_all (\<lambda>x. target x = inst_element self)
          (filter (\<lambda>x. List.member (observed st) (target x)) batch)"
    using assms by (auto simp: list_all_iff)
  then show ?thesis
    unfolding notify_def by (rule callback_as_wp)
qed

lemma run_as_wp:
  "set (observed st) \<subseteq> {inst_element self} \<Longrightarrow>
   run (callback self) batches st = run (callback_wp (inst_options self)) batches st"
proof (induction batches arbitrary: st)
  case Nil
  then show ?case by (simp add: run_Nil)
next
  case (Cons b bs)
  have eq: "notify (callback self) b st = notify (callback_wp (inst_options self)) b st"
    by (rule notify_as_wp [OF Cons.prems])
  have "set (observed (notify (callback_wp (inst_options self)) b st)) \<subseteq> {inst_element self}"
    using notify_wp_observed_subset [of "inst_options self" b st] Cons.prems by blast
  from Cons.IH [OF this] eq show ?case
    unfolding run_Cons by simp
qed

lemma addInlineSvgObserver_observed:
  "observed (addInlineSvgObserver self ws) = [inst_element self]"
  "observed (addInlineSvgObserver_wp el ws) = [el]"
  by (simp_all add: addInlineSvgObserver_def addInlineSvgObserver_wp_def observe_def)

text \<open>
  What \<^verbatim>\<open>unobserve\<close> does achieve. A delivery that reports the element
  intersecting leaves it unobserved, and no later delivery changes anything about
  an unobserved element, so it is not fetched again. The number of requests for
  an element grows by at most one over any sequence of deliveries in which no
  single array holds two intersecting entries for it.
\<close>

theorem watcher_fetches_at_most_once:
  assumes "list_all (\<lambda>b. intersecting_reports el b \<le> 1) batches"
    and "inst_element self = el"
  shows "fetches el (run (callback_wp opts) batches (addInlineSvgObserver_wp el ws))
           \<le> fetches el (addInlineSvgObserver_wp el ws) + 1
         \<and> fetches el (run (callback self) batches (addInlineSvgObserver self ws))
           \<le> fetches el (addInlineSvgObserver self ws) + 1
         \<and> (el \<in> set (observed st) \<and> 0 < intersecting_reports el b \<longrightarrow>
              el \<notin> set (observed (notify (callback_wp opts) b st)))
         \<and> (set (observed st) = {el} \<and> 0 < intersecting_reports el b \<longrightarrow>
              el \<notin> set (observed (notify (callback self) b st)))
         \<and> (el \<notin> set (observed st) \<longrightarrow>
              worlds (run (callback_wp opts) later st) el = worlds st el)
         \<and> (observed st = [] \<longrightarrow>
              worlds (run (callback self) later st) el = worlds st el)"
proof -
  have 1: "fetches el (run (callback_wp opts) batches (addInlineSvgObserver_wp el ws))
           \<le> fetches el (addInlineSvgObserver_wp el ws) + 1"
    using run_wp_at_most_once [OF assms(1), of opts "addInlineSvgObserver_wp el ws"]
    by (simp add: addInlineSvgObserver_observed)
  have sub: "set (observed (addInlineSvgObserver self ws)) \<subseteq> {inst_element self}"
    by (simp add: addInlineSvgObserver_observed)
  have 2: "fetches el (run (callback self) batches (addInlineSvgObserver self ws))
           \<le> fetches el (addInlineSvgObserver self ws) + 1"
    using run_wp_at_most_once [OF assms(1), of "inst_options self" "addInlineSvgObserver self ws"]
    unfolding run_as_wp [OF sub]
    by (simp add: addInlineSvgObserver_observed assms(2))
  have 3: "el \<notin> set (observed (notify (callback_wp opts) b st))"
    if "el \<in> set (observed st) \<and> 0 < intersecting_reports el b"
    using that notify_wp_unobserves by blast
  have 4: "el \<notin> set (observed (notify (callback self) b st))"
    if h: "set (observed st) = {el} \<and> 0 < intersecting_reports el b"
  proof -
    from h have s: "set (observed st) \<subseteq> {inst_element self}" using assms(2) by simp
    from h have "el \<in> set (observed st)" by simp
    with h show ?thesis
      unfolding notify_as_wp [OF s] using notify_wp_unobserves by blast
  qed
  have 5: "worlds (run (callback_wp opts) later st) el = worlds st el"
    if "el \<notin> set (observed st)"
    using run_wp_unobserved_untouched [OF that] by simp
  have 6: "worlds (run (callback self) later st) el = worlds st el"
    if h: "observed st = []"
  proof -
    from h have s: "set (observed st) \<subseteq> {inst_element self}" by simp
    from h have "el \<notin> set (observed st)" by simp
    from run_wp_unobserved_untouched [OF this] show ?thesis
      unfolding run_as_wp [OF s] by simp
  qed
  from 1 2 3 4 5 6 show ?thesis by blast
qed

theorem watcher_fetches_at_most_once_witness:
  "list_all (\<lambda>b. intersecting_reports 0 b \<le> 1) separate_batches
   \<and> inst_element loader_demo = 0
   \<and> fetches 0 (addInlineSvgObserver_wp 0 (\<lambda>_. page img_plain)) = 0
   \<and> fetches 0 (run (callback_wp default_options) separate_batches
                   (addInlineSvgObserver_wp 0 (\<lambda>_. page img_plain))) \<le> 1
   \<and> fetches 0 (run (callback loader_demo) separate_batches
                   (addInlineSvgObserver loader_demo (\<lambda>_. page img_plain))) \<le> 1
   \<and> fetches 0 (run (callback_wp default_options) separate_batches
                   (addInlineSvgObserver_wp 0 (\<lambda>_. page img_plain))) = 1"
proof -
  have h1: "list_all (\<lambda>b. intersecting_reports 0 b \<le> 1) separate_batches" by code_simp
  have h2: "inst_element loader_demo = 0" by (simp add: loader_demo_def)
  have a: "fetches 0 (addInlineSvgObserver_wp 0 (\<lambda>_. page img_plain)) = 0" by code_simp
  have b: "fetches 0 (addInlineSvgObserver loader_demo (\<lambda>_. page img_plain)) = 0" by code_simp
  have c: "fetches 0 (run (callback_wp default_options) separate_batches
                   (addInlineSvgObserver_wp 0 (\<lambda>_. page img_plain))) = 1"
    by code_simp
  show ?thesis
    using watcher_fetches_at_most_once [OF h1 h2, of default_options "\<lambda>_. page img_plain"] h1 h2 a b c
    by simp
qed

text \<open>
  C2: the callback calls \<^verbatim>\<open>getSvg\<close> and then \<^verbatim>\<open>unobserve\<close> for every
  intersecting entry of the array it is handed, and its loop does not look at
  what \<^verbatim>\<open>unobserve\<close> did. One delivery with two intersecting entries for the
  same element (it came into view, left and came back before the queued entries
  were delivered) makes both variants issue two requests for an element that had
  none, where the rule of at most one fetch per element allows one.
\<close>

theorem watcher_reentry_fetches_twice:
  "fetches 0 (addInlineSvgObserver_wp 0 (\<lambda>_. page img_plain)) = 0
   \<and> fetches 0 (run (callback_wp default_options) [reentry_batch]
                   (addInlineSvgObserver_wp 0 (\<lambda>_. page img_plain))) = 2
   \<and> fetches 0 (addInlineSvgObserver loader_demo (\<lambda>_. page img_plain)) = 0
   \<and> fetches 0 (run (callback loader_demo) [reentry_batch]
                   (addInlineSvgObserver loader_demo (\<lambda>_. page img_plain))) = 2"
proof -
  have a: "fetches 0 (addInlineSvgObserver_wp 0 (\<lambda>_. page img_plain)) = 0" by code_simp
  have b: "fetches 0 (run (callback_wp default_options) [reentry_batch]
                   (addInlineSvgObserver_wp 0 (\<lambda>_. page img_plain))) = 2"
    by code_simp
  have c: "fetches 0 (addInlineSvgObserver loader_demo (\<lambda>_. page img_plain)) = 0" by code_simp
  have d: "fetches 0 (run (callback loader_demo) [reentry_batch]
                   (addInlineSvgObserver loader_demo (\<lambda>_. page img_plain))) = 2"
    by code_simp
  from a b c d show ?thesis by (simp only: simp_thms)
qed

end
